theory Spec2Isabelle
  imports Main "HOL-Library.Word"
begin

unbundle bit_operations_syntax

section \<open>Addresses: Go's \<open>net.IP\<close> byte slices\<close>

text \<open>
  A \<open>net.IP\<close> is a byte slice of length 4 (IPv4) or 16 (IPv6, also the form
  \<open>net.ParseIP\<close> returns for an IPv4 address). It is modelled as a list of bytes; the
  nil slice is the empty list, except for the \<open>requestedIP\<close> argument of
  \<open>AllocateIP\<close>, which the code compares with nil and which is an \<open>option\<close>.
\<close>

type_synonym byte = "8 word"
type_synonym IP = "byte list"
type_synonym IPMask = "byte list"

subsection \<open>\<open>nextIP\<close>\<close>

text \<open>
  \<^verbatim>\<open>
  func nextIP(ip net.IP) net.IP {
      next := make(net.IP, len(ip))
      copy(next, ip)
      for j := len(next) - 1; j >= 0; j-- {
          next[j]++
          if next[j] > 0 { break }
      }
      return next
  }
  \<close>
  The loop counter of the model is \<open>j + 1\<close>, so that the end of the loop (\<open>j = -1\<close>) is
  the count 0. The index \<open>j\<close> is always below \<open>len(next)\<close>, and \<open>++\<close> on a byte wraps.
\<close>

fun nextIP_loop :: "IP \<Rightarrow> nat \<Rightarrow> IP" where
  "nextIP_loop next 0 = next"
| "nextIP_loop next (Suc j) =
     (let next' = next[j := next ! j + 1]
      in if next' ! j > 0 then next' else nextIP_loop next' j)"

definition nextIP :: "IP \<Rightarrow> IP" where
  "nextIP ip = (let next = ip in nextIP_loop next (length next))"

text \<open>
  The same function over an explicit store of byte arrays, to speak about what it writes:
  a slice is the index of its backing array in the store, \<open>make\<close> appends a new array, and
  every \<open>next[j]++\<close> is a write to the array at \<open>next\<close>.
\<close>

type_synonym store = "byte list list"

fun nextIP_store_loop :: "store \<Rightarrow> nat \<Rightarrow> nat \<Rightarrow> store" where
  "nextIP_store_loop s next 0 = s"
| "nextIP_store_loop s next (Suc j) =
     (let s' = s[next := (s ! next)[j := s ! next ! j + 1]]
      in if s' ! next ! j > 0 then s' else nextIP_store_loop s' next j)"

definition nextIP_store :: "store \<Rightarrow> nat \<Rightarrow> store \<times> nat" where
  "nextIP_store s ip =
     (let next = length s;
          s1 = s @ [replicate (length (s ! ip)) 0];
          s2 = s1[next := s1 ! ip];
          s3 = nextIP_store_loop s2 next (length (s2 ! next))
      in (s3, next))"

text \<open>The value of a byte slice read as a big-endian number.\<close>

fun be_val :: "IP \<Rightarrow> nat" where
  "be_val [] = 0"
| "be_val (b # bs) = unat b * 256 ^ length bs + be_val bs"

subsection \<open>The functions of Go's \<open>net\<close> package the repository calls\<close>

text \<open>
  \<open>To4\<close>, \<open>Equal\<close>, \<open>CIDRMask\<close>, \<open>Mask\<close>, \<open>networkNumberAndMask\<close> and \<open>Contains\<close>
  are the standard library's functions on byte slices, written out byte by byte. A nil
  result of \<open>To4\<close> is \<open>None\<close>; a nil result of \<open>Mask\<close> is the empty list.
\<close>

definition v4InV6Prefix :: "byte list" where
  "v4InV6Prefix = [0, 0, 0, 0, 0, 0, 0, 0, 0, 0, 0xff, 0xff]"

definition isZeros :: "byte list \<Rightarrow> bool" where
  "isZeros p = list_all (\<lambda>b. b = 0) p"

definition allFF :: "byte list \<Rightarrow> bool" where
  "allFF b = list_all (\<lambda>c. c = 0xff) b"

definition To4 :: "IP \<Rightarrow> IP option" where
  "To4 ip =
     (if length ip = 4 then Some ip
      else if length ip = 16 \<and> isZeros (take 10 ip) \<and> ip ! 10 = 0xff \<and> ip ! 11 = 0xff
        then Some (drop 12 ip)
      else None)"

definition Equal :: "IP \<Rightarrow> IP \<Rightarrow> bool" where
  "Equal ip x =
     (if length ip = length x then ip = x
      else if length ip = 4 \<and> length x = 16
        then take 12 x = v4InV6Prefix \<and> ip = drop 12 x
      else if length ip = 16 \<and> length x = 4
        then take 12 ip = v4InV6Prefix \<and> drop 12 ip = x
      else False)"

text \<open>\<open>mask_bytes l n\<close> is the loop of \<open>CIDRMask\<close>: \<open>l\<close> bytes to go, \<open>n\<close> ones left.\<close>

fun mask_bytes :: "nat \<Rightarrow> nat \<Rightarrow> byte list" where
  "mask_bytes 0 n = []"
| "mask_bytes (Suc l) n =
     (if n \<ge> 8 then 0xff # mask_bytes l (n - 8)
      else NOT (drop_bit n 0xff) # mask_bytes l 0)"

definition CIDRMask :: "nat \<Rightarrow> nat \<Rightarrow> IPMask option" where
  "CIDRMask ones bits =
     (if bits \<noteq> 8 * 4 \<and> bits \<noteq> 8 * 16 then None
      else if ones > bits then None
      else Some (mask_bytes (bits div 8) ones))"

definition Mask :: "IP \<Rightarrow> IPMask \<Rightarrow> IP" where
  "Mask ip0 mask0 =
     (let mask = (if length mask0 = 16 \<and> length ip0 = 4 \<and> allFF (take 12 mask0)
                  then drop 12 mask0 else mask0);
          ip = (if length mask = 4 \<and> length ip0 = 16 \<and> take 12 ip0 = v4InV6Prefix
                then drop 12 ip0 else ip0)
      in if length ip \<noteq> length mask then []
         else map (\<lambda>i. ip ! i AND mask ! i) [0..<length ip])"

record IPNet =
  net_IP :: IP
  net_Mask :: IPMask

definition networkNumberAndMask :: "IPNet \<Rightarrow> IP \<times> IPMask" where
  "networkNumberAndMask n =
     (case (case To4 (net_IP n) of
              Some ip4 \<Rightarrow> Some ip4
            | None \<Rightarrow> if length (net_IP n) \<noteq> 16 then None else Some (net_IP n)) of
        None \<Rightarrow> ([], [])
      | Some ip \<Rightarrow>
          (let m = net_Mask n
           in if length m = 4 then (if length ip \<noteq> 4 then ([], []) else (ip, m))
              else if length m = 16 then (if length ip = 4 then (ip, drop 12 m) else (ip, m))
              else ([], [])))"

definition Contains :: "IPNet \<Rightarrow> IP \<Rightarrow> bool" where
  "Contains n ip0 =
     (case networkNumberAndMask n of (nn, m) \<Rightarrow>
        (let ip = (case To4 ip0 of Some x \<Rightarrow> x | None \<Rightarrow> ip0);
             l = length ip
         in if l \<noteq> length nn then False
            else list_all (\<lambda>i. nn ! i AND m ! i = ip ! i AND m ! i) [0..<l]))"

section \<open>The store: PostgreSQL tables and values\<close>

text \<open>
  An \<open>inet\<close> or \<open>cidr\<close> value of PostgreSQL is its address bytes (4 for IPv4, 16 for
  IPv6) and its netmask length. Two values are equal in SQL when both agree.

  The repository passes addresses to SQL as text and parses the text that comes back. The
  text itself is not modelled: each conversion below is the composition of the function
  that prints and the function that reads, from value to value.
\<close>

datatype inet = Inet (inet_addr: "byte list") (inet_bits: nat)

text \<open>
  \<open>inet_of_IP ip\<close>: the \<open>inet\<close> value PostgreSQL reads from the parameter \<open>ip.String()\<close>.
  \<open>String\<close> prints \<open><nil>\<close> for an empty slice and \<open>?\<close> followed by hexadecimal digits for
  a length other than 4 and 16, which PostgreSQL rejects (\<open>None\<close>); it prints dotted
  decimal when \<open>To4\<close> succeeds and IPv6 text otherwise. A text without netmask is read
  with the full netmask length.
\<close>

definition inet_of_IP :: "IP \<Rightarrow> inet option" where
  "inet_of_IP ip =
     (if length ip = 0 then None
      else if length ip \<noteq> 4 \<and> length ip \<noteq> 16 then None
      else case To4 ip of
             Some p4 \<Rightarrow> Some (Inet p4 32)
           | None \<Rightarrow> Some (Inet ip 128))"

text \<open>
  \<open>IP_of_inet a\<close>: \<open>net.ParseIP(strings.Split(addressStr, "/")[0])\<close> where \<open>addressStr\<close>
  is \<open>address::text\<close>, the address followed by \<open>/\<close> and the netmask length.
  \<open>ParseIP\<close> returns the 16-byte form, for an IPv4 address behind \<open>v4InV6Prefix\<close>.
\<close>

definition IP_of_inet :: "inet \<Rightarrow> IP" where
  "IP_of_inet a =
     (if length (inet_addr a) = 4 then v4InV6Prefix @ inet_addr a else inet_addr a)"

text \<open>
  \<open>ParseIP_gateway g\<close>: \<open>net.ParseIP(gatewayStr)\<close> where \<open>gatewayStr\<close> is the \<open>gateway\<close>
  column as PostgreSQL prints an \<open>inet\<close>: without the netmask length when that is the
  full length, with it otherwise, and then \<open>ParseIP\<close> returns nil (\<open>None\<close>).
\<close>

definition ParseIP_gateway :: "inet \<Rightarrow> IP option" where
  "ParseIP_gateway g =
     (if inet_bits g = 8 * length (inet_addr g) then Some (IP_of_inet g) else None)"

text \<open>
  \<open>ParseCIDR c\<close>: the \<open>*IPNet\<close> of \<open>net.ParseCIDR(networkCIDR)\<close> where \<open>networkCIDR\<close> is
  the \<open>cidr\<close> column as PostgreSQL prints it, the address followed by \<open>/\<close> and the netmask
  length. \<open>ParseCIDR\<close> fails (\<open>None\<close>) when the length exceeds the bit length of the
  address; it builds the mask with \<open>CIDRMask\<close> and masks the 16-byte form of the address.
\<close>

definition ParseCIDR :: "inet \<Rightarrow> IPNet option" where
  "ParseCIDR c =
     (let bitLen = 8 * length (inet_addr c)
      in if inet_bits c > bitLen then None
         else case CIDRMask (inet_bits c) bitLen of
                None \<Rightarrow> None
              | Some m \<Rightarrow> Some \<lparr>net_IP = Mask (IP_of_inet c) m, net_Mask = m\<rparr>)"

text \<open>
  The \<open>CIDR\<close> string of a \<open>Network\<close> is represented by what PostgreSQL's input function for
  \<open>cidr\<close> reads in it: an address and a netmask length, or nothing that it can read.
  \<open>cidr_in\<close> is that input function: it rejects a netmask longer than the address and an
  address with bits set to the right of the netmask.
\<close>

datatype cidr_text = CidrText "byte list" nat | NotCidr

definition cidr_in :: "cidr_text \<Rightarrow> inet option" where
  "cidr_in t =
     (case t of
        NotCidr \<Rightarrow> None
      | CidrText bs bits \<Rightarrow>
          if (length bs = 4 \<or> length bs = 16) \<and> bits \<le> 8 * length bs
             \<and> bs = map (\<lambda>i. bs ! i AND mask_bytes (length bs) bits ! i) [0..<length bs]
          then Some (Inet bs bits) else None)"

text \<open>
  The two tables of the README's schema. Identifiers come from the two sequences, which,
  as in PostgreSQL, a rollback does not reset. \<open>hostname\<close> is nullable (\<open>None\<close> is NULL);
  \<open>network_id\<close> is never NULL, since the only INSERT of the repository gives it a value.
\<close>

record network_row =
  n_id :: int
  n_cidr :: inet
  n_gateway :: inet

record ip_row =
  a_id :: int
  a_network_id :: int
  a_address :: inet
  a_hostname :: "string option"
  a_status :: string

record db =
  networks :: "network_row list"
  ip_addresses :: "ip_row list"
  networks_id_seq :: int
  ip_addresses_id_seq :: int

definition empty_db :: db where
  "empty_db = \<lparr>networks = [], ip_addresses = [], networks_id_seq = 0, ip_addresses_id_seq = 0\<rparr>"

text \<open>
  One caller at a time: a transaction works on a copy of the store, \<open>Commit\<close> installs the
  copy and \<open>Rollback\<close> drops its tables. Statements fail only for what the data gives (no
  row, a NULL scanned into a string, a parameter that is not an address).

  The store can refuse to begin a transaction and refuse to commit one; \<open>db.Begin\<close> and
  \<open>tx.Commit\<close> then return an error, and a transaction whose commit is refused is rolled
  back. \<open>store_faults\<close> says what the store refuses during one call of \<open>AllocateIP\<close>, the
  function whose every error return is modelled.
\<close>

record store_faults =
  begin_fails :: bool
  commit_fails :: bool

definition no_faults :: store_faults where
  "no_faults = \<lparr>begin_fails = False, commit_fails = False\<rparr>"

datatype sql_error = ErrNoRows | ErrScan | ErrInput

definition Begin :: "db \<Rightarrow> db" where
  "Begin d = d"

definition Commit :: "db \<Rightarrow> db" where
  "Commit tx = tx"

definition Rollback :: "db \<Rightarrow> db \<Rightarrow> db" where
  "Rollback d tx =
     d\<lparr>networks_id_seq := networks_id_seq tx, ip_addresses_id_seq := ip_addresses_id_seq tx\<rparr>"

text \<open>\<open>QueryRow(...).Scan(...)\<close>: the first row of the result, \<open>sql.ErrNoRows\<close> when empty.\<close>

definition QueryRow :: "('r \<Rightarrow> sql_error + 'a) \<Rightarrow> 'r list \<Rightarrow> sql_error + 'a" where
  "QueryRow scan rows = (case rows of [] \<Rightarrow> Inl ErrNoRows | r # _ \<Rightarrow> scan r)"

section \<open>The domain and the repository\<close>

record Network =
  Network_ID :: int
  CIDR :: cidr_text
  Gateway :: IP

record IPAddress =
  ID :: int
  NetworkID :: int
  Address :: IP
  Hostname :: string
  Status :: string

text \<open>One constructor for each error message the model of the repository returns.\<close>

datatype error =
    CreateNetworkFailed          \<comment> \<open>failed to create network\<close>
  | BeginFailed                  \<comment> \<open>failed to begin transaction\<close>
  | CommitFailed                 \<comment> \<open>failed to commit transaction\<close>
  | HostnameInUse                \<comment> \<open>hostname ... is already in use in this network\<close>
  | HostnameCheckFailed          \<comment> \<open>failed to check hostname uniqueness\<close>
  | NetworkDetailsFailed         \<comment> \<open>failed to get network details\<close>
  | InvalidGateway               \<comment> \<open>invalid gateway IP\<close>
  | GatewayAddress               \<comment> \<open>cannot allocate gateway address\<close>
  | AlreadyAllocated             \<comment> \<open>IP address ... is already allocated\<close>
  | CheckIPFailed                \<comment> \<open>failed to check IP address\<close>
  | ParseCIDRFailed              \<comment> \<open>failed to parse network CIDR\<close>
  | AllocateFailed               \<comment> \<open>failed to allocate IP address\<close>
  | NoAvailable                  \<comment> \<open>no available IP addresses in the network\<close>
  | ParseAllocatedFailed         \<comment> \<open>failed to parse allocated IP address\<close>
  | NotFound                     \<comment> \<open>IP address not found\<close>
  | GetIPFailed                  \<comment> \<open>failed to get IP address\<close>
  | GetNetworkIDFailed           \<comment> \<open>failed to get network ID\<close>

subsection \<open>\<open>CreateNetwork\<close>\<close>

text \<open>
  \<^verbatim>\<open>INSERT INTO networks (cidr, gateway) VALUES ($1, $2) RETURNING id\<close>
  with the parameters \<open>network.CIDR\<close> and \<open>network.Gateway.String()\<close>. The statement is
  refused when a parameter is not a value of its column's type, before an identifier is
  drawn.
\<close>

definition insert_network :: "db \<Rightarrow> cidr_text \<Rightarrow> IP \<Rightarrow> (sql_error + int) \<times> db" where
  "insert_network d cidr gateway =
     (case (cidr_in cidr, inet_of_IP gateway) of
        (Some c, Some g) \<Rightarrow>
          (let i = networks_id_seq d + 1
           in (Inr i, d\<lparr>networks := networks d @ [\<lparr>n_id = i, n_cidr = c, n_gateway = g\<rparr>],
                         networks_id_seq := i\<rparr>))
      | _ \<Rightarrow> (Inl ErrInput, d))"

text \<open>
  \<open>CreateNetwork\<close> writes the identifier into the \<open>Network\<close> it is given: the model returns
  the error (\<open>None\<close> is nil), the \<open>Network\<close> and the store.
\<close>

definition CreateNetwork :: "db \<Rightarrow> Network \<Rightarrow> error option \<times> Network \<times> db" where
  "CreateNetwork d network =
     (case insert_network d (CIDR network) (Gateway network) of
        (Inl err, d') \<Rightarrow> (Some CreateNetworkFailed, network, d')
      | (Inr i, d') \<Rightarrow> (None, network\<lparr>Network_ID := i\<rparr>, d'))"

subsection \<open>\<open>AllocateIP\<close>\<close>

text \<open>\<^verbatim>\<open>SELECT hostname FROM ip_addresses WHERE network_id = $1 AND hostname = $2\<close>\<close>

definition select_hostname :: "db \<Rightarrow> int \<Rightarrow> string \<Rightarrow> ip_row list" where
  "select_hostname tx networkID hostname =
     filter (\<lambda>r. a_network_id r = networkID \<and> a_hostname r = Some hostname) (ip_addresses tx)"

text \<open>Scanning the \<open>hostname\<close> column into a Go string fails on NULL.\<close>

definition scan_hostname :: "ip_row \<Rightarrow> sql_error + string" where
  "scan_hostname r = (case a_hostname r of None \<Rightarrow> Inl ErrScan | Some h \<Rightarrow> Inr h)"

text \<open>\<^verbatim>\<open>SELECT cidr, gateway FROM networks WHERE id = $1\<close>\<close>

definition select_network :: "db \<Rightarrow> int \<Rightarrow> network_row list" where
  "select_network tx networkID = filter (\<lambda>n. n_id n = networkID) (networks tx)"

definition scan_network :: "network_row \<Rightarrow> sql_error + inet \<times> inet" where
  "scan_network n = Inr (n_cidr n, n_gateway n)"

text \<open>
  \<^verbatim>\<open>SELECT id, address::text FROM ip_addresses WHERE network_id = $1 AND address = $2 FOR UPDATE\<close>
  with the parameter \<open>requestedIP.String()\<close>, refused when that is not an address.
\<close>

definition select_address :: "db \<Rightarrow> int \<Rightarrow> IP \<Rightarrow> sql_error + ip_row list" where
  "select_address tx networkID ip =
     (case inet_of_IP ip of
        None \<Rightarrow> Inl ErrInput
      | Some a \<Rightarrow> Inr (filter (\<lambda>r. a_network_id r = networkID \<and> a_address r = a) (ip_addresses tx)))"

definition scan_id_address :: "ip_row \<Rightarrow> sql_error + int \<times> inet" where
  "scan_id_address r = Inr (a_id r, a_address r)"

text \<open>
  \<^verbatim>\<open>INSERT INTO ip_addresses (network_id, address, hostname, status)
   VALUES ($1, $2, $3, 'allocated') RETURNING id, address::text\<close>
\<close>

definition insert_ip :: "db \<Rightarrow> int \<Rightarrow> IP \<Rightarrow> string \<Rightarrow> (sql_error + int \<times> inet) \<times> db" where
  "insert_ip tx networkID ip hostname =
     (case inet_of_IP ip of
        None \<Rightarrow> (Inl ErrInput, tx)
      | Some a \<Rightarrow>
          (let i = ip_addresses_id_seq tx + 1
           in (Inr (i, a),
               tx\<lparr>ip_addresses := ip_addresses tx @
                     [\<lparr>a_id = i, a_network_id = networkID, a_address = a,
                       a_hostname = Some hostname, a_status = ''allocated''\<rparr>],
                  ip_addresses_id_seq := i\<rparr>)))"

text \<open>
  \<^verbatim>\<open>INSERT INTO ip_addresses (network_id, address, hostname, status)
   SELECT $1, $2, $3, 'allocated'
   WHERE NOT EXISTS (SELECT 1 FROM ip_addresses WHERE network_id = $1 AND address = $2)
   RETURNING id, address::text\<close>
  When the row exists nothing is inserted and nothing is returned: \<open>sql.ErrNoRows\<close>.
\<close>

definition insert_ip_if_absent ::
  "db \<Rightarrow> int \<Rightarrow> IP \<Rightarrow> string \<Rightarrow> (sql_error + int \<times> inet) \<times> db" where
  "insert_ip_if_absent tx networkID ip hostname =
     (case inet_of_IP ip of
        None \<Rightarrow> (Inl ErrInput, tx)
      | Some a \<Rightarrow>
          if list_ex (\<lambda>r. a_network_id r = networkID \<and> a_address r = a) (ip_addresses tx)
          then (Inl ErrNoRows, tx)
          else insert_ip tx networkID ip hostname)"

text \<open>
  The loop of the first-available branch:
  \<^verbatim>\<open>
  for ip := nextIP(ipNet.IP); ipNet.Contains(ip); ip = nextIP(ip) {
      if ip.Equal(gatewayIP) { continue }
      err = tx.QueryRow(query, networkID, ip.String(), hostname).Scan(&ipAddress.ID, &addressStr)
      if err == nil { break }
      if err != sql.ErrNoRows { return nil, fmt.Errorf("failed to allocate IP address: %v", err) }
  }
  \<close>
  Its state is the transaction, the variable \<open>err\<close> declared in this branch, and \<open>ip\<close>. It
  leaves either by the \<open>return\<close> inside, or at its end with \<open>err\<close> and what \<open>Scan\<close> wrote
  into \<open>ipAddress.ID\<close> and \<open>addressStr\<close>, if it wrote. In a block that holds every
  address a slice of that length can have, the loop runs for as long as no insert succeeds:
  the result \<open>None\<close> is the loop that does not end.
\<close>

datatype loop_exit =
    LoopReturn db
  | LoopEnd "sql_error option" "(int \<times> inet) option" db

partial_function (option) first_available ::
  "IPNet \<Rightarrow> IP \<Rightarrow> int \<Rightarrow> string \<Rightarrow> db \<Rightarrow> sql_error option \<Rightarrow> IP \<Rightarrow> loop_exit option" where
  "first_available ipNet gatewayIP networkID hostname tx err ip =
     (if Contains ipNet ip then
        (if Equal ip gatewayIP
         then first_available ipNet gatewayIP networkID hostname tx err (nextIP ip)
         else (case insert_ip_if_absent tx networkID ip hostname of
                 (Inr scanned, tx') \<Rightarrow> Some (LoopEnd None (Some scanned) tx')
               | (Inl e, tx') \<Rightarrow>
                   if e \<noteq> ErrNoRows then Some (LoopReturn tx')
                   else first_available ipNet gatewayIP networkID hostname tx' (Some e)
                          (nextIP ip)))
      else Some (LoopEnd err None tx))"

text \<open>
  The end of \<open>AllocateIP\<close>, after the branches: the check of the function's own \<open>err\<close>,
  the commit, which the store refuses or not, and the parse of \<open>addressStr\<close>, which is
  still empty (\<open>None\<close>) when no statement returned a row; \<open>net.ParseIP\<close> of the empty
  string is nil. The error of that parse is returned after the commit.
\<close>

definition AllocateIP_finish ::
  "bool \<Rightarrow> db \<Rightarrow> db \<Rightarrow> int \<Rightarrow> string \<Rightarrow> sql_error option \<Rightarrow> (int \<times> inet) option
   \<Rightarrow> (error + IPAddress) \<times> db" where
  "AllocateIP_finish commitFails d tx networkID hostname err scanned =
     (if err \<noteq> None then (Inl AllocateFailed, Rollback d tx)
      else if commitFails then (Inl CommitFailed, Rollback d tx)
      else (let d' = Commit tx
            in case scanned of
                 None \<Rightarrow> (Inl ParseAllocatedFailed, d')
               | Some (i, addressStr) \<Rightarrow>
                   (Inr \<lparr>ID = i, NetworkID = networkID, Address = IP_of_inet addressStr,
                         Hostname = hostname, Status = ''allocated''\<rparr>, d')))"

text \<open>
  \<open>AllocateIP_with f\<close> is the function of the repository on a store that refuses what \<open>f\<close>
  says. Both refusals leave by a \<open>return\<close> of the source: the first before any statement,
  the second after all of them, under the deferred \<open>tx.Rollback()\<close>.
\<close>

definition AllocateIP_with ::
  "store_faults \<Rightarrow> db \<Rightarrow> int \<Rightarrow> IP option \<Rightarrow> string
   \<Rightarrow> ((error + IPAddress) \<times> db) option" where
  "AllocateIP_with f d networkID requestedIP hostname =
     (if begin_fails f then Some (Inl BeginFailed, d) else
      let tx = Begin d
      in case QueryRow scan_hostname (select_hostname tx networkID hostname) of
           Inr existingHostname \<Rightarrow> Some (Inl HostnameInUse, Rollback d tx)
         | Inl err \<Rightarrow>
             if err \<noteq> ErrNoRows then Some (Inl HostnameCheckFailed, Rollback d tx)
             else (case QueryRow scan_network (select_network tx networkID) of
               Inl err \<Rightarrow> Some (Inl NetworkDetailsFailed, Rollback d tx)
             | Inr (networkCIDR, gatewayStr) \<Rightarrow>
                 (case ParseIP_gateway gatewayStr of
                    None \<Rightarrow> Some (Inl InvalidGateway, Rollback d tx)
                  | Some gatewayIP \<Rightarrow>
                      (case requestedIP of
                         Some ip \<Rightarrow>
                           if Equal ip gatewayIP then Some (Inl GatewayAddress, Rollback d tx)
                           else (case select_address tx networkID ip of
                                   Inl err \<Rightarrow> Some (Inl CheckIPFailed, Rollback d tx)
                                 | Inr rows \<Rightarrow>
                                     (case QueryRow scan_id_address rows of
                                        Inr found \<Rightarrow> Some (Inl AlreadyAllocated, Rollback d tx)
                                      | Inl err \<Rightarrow>
                                          if err \<noteq> ErrNoRows
                                          then Some (Inl CheckIPFailed, Rollback d tx)
                                          else (case insert_ip tx networkID ip hostname of
                                                  (Inl err, tx') \<Rightarrow>
                                                    Some (AllocateIP_finish (commit_fails f) d tx'
                                                            networkID hostname (Some err) None)
                                                | (Inr scanned, tx') \<Rightarrow>
                                                    Some (AllocateIP_finish (commit_fails f) d tx'
                                                            networkID hostname None
                                                            (Some scanned)))))
                       | None \<Rightarrow>
                           (case ParseCIDR networkCIDR of
                              None \<Rightarrow> Some (Inl ParseCIDRFailed, Rollback d tx)
                            | Some ipNet \<Rightarrow>
                                (case first_available ipNet gatewayIP networkID hostname tx
                                        None (nextIP (net_IP ipNet)) of
                                   None \<Rightarrow> None
                                 | Some (LoopReturn tx') \<Rightarrow>
                                     Some (Inl AllocateFailed, Rollback d tx')
                                 | Some (LoopEnd err scanned tx') \<Rightarrow>
                                     if err = Some ErrNoRows
                                     then Some (Inl NoAvailable, Rollback d tx')
                                     else Some (AllocateIP_finish (commit_fails f) d tx'
                                                  networkID hostname None scanned)))))))"

text \<open>\<open>AllocateIP\<close> is the function on a store that refuses neither.\<close>

definition AllocateIP ::
  "db \<Rightarrow> int \<Rightarrow> IP option \<Rightarrow> string \<Rightarrow> ((error + IPAddress) \<times> db) option" where
  "AllocateIP d networkID requestedIP hostname =
     AllocateIP_with no_faults d networkID requestedIP hostname"

subsection \<open>\<open>ReleaseIP\<close>, \<open>GetIP\<close> and \<open>UpdateIPHostname\<close>\<close>

text \<open>
  \<^verbatim>\<open>UPDATE ip_addresses SET status = 'available', hostname = NULL WHERE id = $1\<close>,
  with the number of rows it changed.
\<close>

definition update_release :: "db \<Rightarrow> int \<Rightarrow> nat \<times> db" where
  "update_release d i =
     (length (filter (\<lambda>r. a_id r = i) (ip_addresses d)),
      d\<lparr>ip_addresses :=
           map (\<lambda>r. if a_id r = i then r\<lparr>a_status := ''available'', a_hostname := None\<rparr> else r)
               (ip_addresses d)\<rparr>)"

definition ReleaseIP :: "db \<Rightarrow> int \<Rightarrow> error option \<times> db" where
  "ReleaseIP d i =
     (case update_release d i of
        (rowsAffected, d') \<Rightarrow>
          if rowsAffected = 0 then (Some NotFound, d') else (None, d'))"

text \<open>
  \<^verbatim>\<open>SELECT id, network_id, address::text, hostname, status FROM ip_addresses WHERE id = $1\<close>,
  scanned into \<open>ip.ID\<close>, \<open>ip.NetworkID\<close>, \<open>addressStr\<close>, \<open>ip.Hostname\<close> and \<open>ip.Status\<close>.
  \<open>ip.Hostname\<close> is a Go string, and \<open>Scan\<close> returns an error for a NULL.
\<close>

definition select_ip :: "db \<Rightarrow> int \<Rightarrow> ip_row list" where
  "select_ip d i = filter (\<lambda>r. a_id r = i) (ip_addresses d)"

definition scan_ip :: "ip_row \<Rightarrow> sql_error + IPAddress" where
  "scan_ip r =
     (case a_hostname r of
        None \<Rightarrow> Inl ErrScan
      | Some h \<Rightarrow>
          Inr \<lparr>ID = a_id r, NetworkID = a_network_id r, Address = IP_of_inet (a_address r),
                Hostname = h, Status = a_status r\<rparr>)"

text \<open>The result \<open>Inr None\<close> is the pair of nils that \<open>GetIP\<close> returns when there is no row.\<close>

definition GetIP :: "db \<Rightarrow> int \<Rightarrow> error + IPAddress option" where
  "GetIP d i =
     (case QueryRow scan_ip (select_ip d i) of
        Inl err \<Rightarrow> if err = ErrNoRows then Inr None else Inl GetIPFailed
      | Inr ip \<Rightarrow> Inr (Some ip))"

text \<open>
  \<^verbatim>\<open>SELECT network_id FROM ip_addresses WHERE id = $1\<close>,
  \<^verbatim>\<open>SELECT hostname FROM ip_addresses WHERE network_id = $1 AND hostname = $2 AND id != $3\<close>
  and \<^verbatim>\<open>UPDATE ip_addresses SET hostname = $1 WHERE id = $2\<close>.
\<close>

definition scan_network_id :: "ip_row \<Rightarrow> sql_error + int" where
  "scan_network_id r = Inr (a_network_id r)"

definition select_hostname_other :: "db \<Rightarrow> int \<Rightarrow> string \<Rightarrow> int \<Rightarrow> ip_row list" where
  "select_hostname_other tx networkID hostname i =
     filter (\<lambda>r. a_network_id r = networkID \<and> a_hostname r = Some hostname \<and> a_id r \<noteq> i)
            (ip_addresses tx)"

definition update_hostname :: "db \<Rightarrow> string \<Rightarrow> int \<Rightarrow> nat \<times> db" where
  "update_hostname tx hostname i =
     (length (filter (\<lambda>r. a_id r = i) (ip_addresses tx)),
      tx\<lparr>ip_addresses :=
            map (\<lambda>r. if a_id r = i then r\<lparr>a_hostname := Some hostname\<rparr> else r)
                (ip_addresses tx)\<rparr>)"

definition UpdateIPHostname :: "db \<Rightarrow> int \<Rightarrow> string \<Rightarrow> error option \<times> db" where
  "UpdateIPHostname d i hostname =
     (let tx = Begin d
      in case QueryRow scan_network_id (select_ip tx i) of
           Inl err \<Rightarrow> (Some GetNetworkIDFailed, Rollback d tx)
         | Inr networkID \<Rightarrow>
             (case QueryRow scan_hostname (select_hostname_other tx networkID hostname i) of
                Inr existingHostname \<Rightarrow> (Some HostnameInUse, Rollback d tx)
              | Inl err \<Rightarrow>
                  if err \<noteq> ErrNoRows then (Some HostnameCheckFailed, Rollback d tx)
                  else (case update_hostname tx hostname i of
                          (rowsAffected, tx') \<Rightarrow>
                            if rowsAffected = 0 then (Some NotFound, Rollback d tx')
                            else (None, Commit tx'))))"

section \<open>Notions of the statements\<close>

text \<open>
  The code of \<open>first_available\<close> as an equation for evaluation.
\<close>

declare first_available.simps [code]

text \<open>
  The gateway and the block of a network, as \<open>AllocateIP\<close> reads them from the store.
\<close>

definition network_gateway :: "db \<Rightarrow> int \<Rightarrow> IP option" where
  "network_gateway d networkID =
     (case QueryRow scan_network (select_network d networkID) of
        Inl err \<Rightarrow> None
      | Inr (networkCIDR, gatewayStr) \<Rightarrow> ParseIP_gateway gatewayStr)"

definition network_block :: "db \<Rightarrow> int \<Rightarrow> IPNet option" where
  "network_block d networkID =
     (case QueryRow scan_network (select_network d networkID) of
        Inl err \<Rightarrow> None
      | Inr (networkCIDR, gatewayStr) \<Rightarrow> ParseCIDR networkCIDR)"

text \<open>
  An address is occupied in a network when a row of \<open>ip_addresses\<close> has that network and
  that address, whatever its status; it denotes an allocation when such a row has the
  status \<open>allocated\<close>.
\<close>

definition occupied :: "db \<Rightarrow> int \<Rightarrow> IP \<Rightarrow> bool" where
  "occupied d networkID ip =
     (case inet_of_IP ip of
        None \<Rightarrow> False
      | Some a \<Rightarrow> list_ex (\<lambda>r. a_network_id r = networkID \<and> a_address r = a) (ip_addresses d))"


text \<open>
  A hostname is held in a network when a row of the network has it, whatever its status;
  it is held by an allocated record when such a row has the status \<open>allocated\<close>; it is
  held by another record than \<open>i\<close> when a row of the network of \<open>i\<close> with another
  identifier has it.
\<close>

definition hostname_held :: "db \<Rightarrow> int \<Rightarrow> string \<Rightarrow> bool" where
  "hostname_held d networkID hostname =
     list_ex (\<lambda>r. a_network_id r = networkID \<and> a_hostname r = Some hostname) (ip_addresses d)"

definition hostname_held_allocated :: "db \<Rightarrow> int \<Rightarrow> string \<Rightarrow> bool" where
  "hostname_held_allocated d networkID hostname =
     list_ex (\<lambda>r. a_network_id r = networkID \<and> a_hostname r = Some hostname
                   \<and> a_status r = ''allocated'') (ip_addresses d)"

definition hostname_held_by_other :: "db \<Rightarrow> int \<Rightarrow> string \<Rightarrow> bool" where
  "hostname_held_by_other d i hostname =
     (case select_ip d i of
        [] \<Rightarrow> False
      | r # _ \<Rightarrow>
          list_ex (\<lambda>r'. a_network_id r' = a_network_id r \<and> a_hostname r' = Some hostname
                         \<and> a_id r' \<noteq> i) (ip_addresses d))"

definition hostname_held_by_other_allocated :: "db \<Rightarrow> int \<Rightarrow> string \<Rightarrow> bool" where
  "hostname_held_by_other_allocated d i hostname =
     (case select_ip d i of
        [] \<Rightarrow> False
      | r # _ \<Rightarrow>
          list_ex (\<lambda>r'. a_network_id r' = a_network_id r \<and> a_hostname r' = Some hostname
                         \<and> a_id r' \<noteq> i \<and> a_status r' = ''allocated'') (ip_addresses d))"

text \<open>What a call of \<open>AllocateIP\<close> returned: the address of its record, or its error.\<close>

definition allocated_address :: "((error + IPAddress) \<times> db) option \<Rightarrow> IP option" where
  "allocated_address res =
     (case res of Some (Inr ipAddress, d) \<Rightarrow> Some (Address ipAddress) | _ \<Rightarrow> None)"

definition allocation_error :: "((error + IPAddress) \<times> db) option \<Rightarrow> error option" where
  "allocation_error res = (case res of Some (Inl e, d) \<Rightarrow> Some e | _ \<Rightarrow> None)"

text \<open>
  The candidates of the first-available loop, counted from the base address of the block:
  \<open>candidate ipNet 0\<close> is the base address, and the loop starts at \<open>candidate ipNet 1\<close>.
  The loop passes over a candidate in the block that is the gateway or occupied, and it
  takes a candidate in the block that is neither.
\<close>

definition candidate :: "IPNet \<Rightarrow> nat \<Rightarrow> IP" where
  "candidate ipNet k = (nextIP ^^ k) (net_IP ipNet)"

definition passed_over :: "IPNet \<Rightarrow> IP \<Rightarrow> db \<Rightarrow> int \<Rightarrow> IP \<Rightarrow> bool" where
  "passed_over ipNet gatewayIP d networkID ip =
     (Contains ipNet ip \<and> (Equal ip gatewayIP \<or> occupied d networkID ip))"

definition taken :: "IPNet \<Rightarrow> IP \<Rightarrow> db \<Rightarrow> int \<Rightarrow> IP \<Rightarrow> bool" where
  "taken ipNet gatewayIP d networkID ip =
     (Contains ipNet ip \<and> \<not> Equal ip gatewayIP \<and> \<not> occupied d networkID ip)"

text \<open>
  What holds when the loop started at \<open>ip\<close> in the transaction \<open>tx\<close> has left with \<open>res\<close>:
  it passed over some number \<open>k\<close> of candidates, and then either returned on an error,
  or found the next candidate outside the block, in both cases without a write, or took
  the next candidate and inserted it.
\<close>

definition loop_post ::
  "IPNet \<Rightarrow> IP \<Rightarrow> int \<Rightarrow> string \<Rightarrow> db \<Rightarrow> IP \<Rightarrow> loop_exit \<Rightarrow> bool" where
  "loop_post ipNet gatewayIP networkID hostname tx ip res =
     (\<exists>k. (\<forall>j<k. passed_over ipNet gatewayIP tx networkID ((nextIP ^^ j) ip))
        \<and> (case res of
              LoopReturn tx' \<Rightarrow> tx' = tx
            | LoopEnd e None tx' \<Rightarrow> tx' = tx \<and> \<not> Contains ipNet ((nextIP ^^ k) ip)
            | LoopEnd e (Some scanned) tx' \<Rightarrow>
                e = None \<and> taken ipNet gatewayIP tx networkID ((nextIP ^^ k) ip)
                \<and> insert_ip tx networkID ((nextIP ^^ k) ip) hostname = (Inr scanned, tx')))"

subsection \<open>A network of four addresses\<close>

text \<open>
  The network 10.0.0.0/30 with the gateway 10.0.0.1, created in the empty store; the store
  after 10.0.0.2 has been allocated to \<open>h1\<close>; after that record has been released;
  after the released record has been given the hostname \<open>h1\<close> again; and after 10.0.0.3
  has then been allocated to \<open>h2\<close>.
\<close>

definition net30 :: Network where
  "net30 = \<lparr>Network_ID = 0, CIDR = CidrText [10, 0, 0, 0] 30, Gateway = [10, 0, 0, 1]\<rparr>"

definition block30 :: IPNet where
  "block30 = \<lparr>net_IP = [10, 0, 0, 0], net_Mask = [255, 255, 255, 252]\<rparr>"

definition db30 :: db where
  "db30 = \<lparr>networks = [\<lparr>n_id = 1, n_cidr = Inet [10, 0, 0, 0] 30,
                           n_gateway = Inet [10, 0, 0, 1] 32\<rparr>],
            ip_addresses = [], networks_id_seq = 1, ip_addresses_id_seq = 0\<rparr>"

definition row2 :: "string option \<Rightarrow> string \<Rightarrow> ip_row" where
  "row2 hostname status =
     \<lparr>a_id = 1, a_network_id = 1, a_address = Inet [10, 0, 0, 2] 32,
      a_hostname = hostname, a_status = status\<rparr>"

definition db30_allocated :: db where
  "db30_allocated = db30\<lparr>ip_addresses := [row2 (Some ''h1'') ''allocated''],
                          ip_addresses_id_seq := 1\<rparr>"

definition db30_released :: db where
  "db30_released = db30\<lparr>ip_addresses := [row2 None ''available''],
                         ip_addresses_id_seq := 1\<rparr>"

definition db30_renamed :: db where
  "db30_renamed = db30\<lparr>ip_addresses := [row2 (Some ''h1'') ''available''],
                        ip_addresses_id_seq := 1\<rparr>"

definition row3 :: ip_row where
  "row3 = \<lparr>a_id = 2, a_network_id = 1, a_address = Inet [10, 0, 0, 3] 32,
           a_hostname = Some ''h2'', a_status = ''allocated''\<rparr>"

definition db30_two :: db where
  "db30_two = db30\<lparr>ip_addresses := [row2 (Some ''h1'') ''available'', row3],
                    ip_addresses_id_seq := 2\<rparr>"

definition ip2 :: IPAddress where
  "ip2 = \<lparr>ID = 1, NetworkID = 1, Address = v4InV6Prefix @ [10, 0, 0, 2],
          Hostname = ''h1'', Status = ''allocated''\<rparr>"

definition ip3 :: IPAddress where
  "ip3 = \<lparr>ID = 2, NetworkID = 1, Address = v4InV6Prefix @ [10, 0, 0, 3],
          Hostname = ''h2'', Status = ''allocated''\<rparr>"

section \<open>Properties\<close>

subsection \<open>\<open>nextIP\<close> is the successor\<close>

lemma be_val_append: "be_val (xs @ ys) = be_val xs * 256 ^ length ys + be_val ys"
  by (induction xs) (simp_all add: power_add algebra_simps)

lemma be_val_snoc: "be_val (xs @ [b]) = be_val xs * 256 + unat b"
  by (simp add: be_val_append)

lemma be_val_bound: "be_val xs < 256 ^ length xs"
proof (induction xs)
  case Nil
  show ?case by simp
next
  case (Cons b bs)
  have "unat b \<le> 255" using unsigned_less [of b, where 'a = nat] by simp
  then have "unat b * 256 ^ length bs \<le> 255 * 256 ^ length bs"
    by (rule mult_le_mono1)
  then have "unat b * 256 ^ length bs + be_val bs < 255 * 256 ^ length bs + 256 ^ length bs"
    using Cons by linarith
  then show ?case by simp
qed

lemma byte_succ_nonzero: "(b::byte) + 1 \<noteq> 0 \<Longrightarrow> unat (b + 1) = unat b + 1"
proof -
  assume a: "b + 1 \<noteq> 0"
  have u: "unat (b + 1) = (unat b + 1) mod 256" by (simp add: unat_word_ariths)
  have "unat b < 256" using unsigned_less [of b, where 'a = nat] by simp
  moreover have "unat b \<noteq> 255"
  proof
    assume "unat b = 255"
    then have "unat (b + 1) = 0" using u by simp
    then show False using a by (simp add: unat_eq_0)
  qed
  ultimately show ?thesis using u by simp
qed

lemma byte_succ_zero: "(b::byte) + 1 = 0 \<Longrightarrow> unat b = 255"
proof -
  assume a: "b + 1 = 0"
  have u: "unat (b + 1) = (unat b + 1) mod 256" by (simp add: unat_word_ariths)
  have "unat b < 256" using unsigned_less [of b, where 'a = nat] by simp
  moreover have "(unat b + 1) mod 256 = 0" using a u by simp
  ultimately show ?thesis by presburger
qed

lemma nextIP_loop_length [simp]: "length (nextIP_loop xs n) = length xs"
  by (induction n arbitrary: xs) (simp_all add: Let_def)

lemma nextIP_loop_drop: "n \<le> length xs \<Longrightarrow> drop n (nextIP_loop xs n) = drop n xs"
proof (induction n arbitrary: xs)
  case 0
  show ?case by simp
next
  case (Suc j)
  let ?xs' = "xs[j := xs ! j + 1]"
  have "drop j (nextIP_loop ?xs' j) = drop j ?xs'" using Suc by simp
  then have "drop (Suc j) (nextIP_loop ?xs' j) = drop (Suc j) ?xs'"
    by (metis drop_drop plus_1_eq_Suc)
  then show ?case by (simp add: Let_def)
qed

lemma nextIP_loop_val:
  "n \<le> length xs \<Longrightarrow>
   be_val (take n (nextIP_loop xs n)) = (be_val (take n xs) + 1) mod 256 ^ n"
proof (induction n arbitrary: xs)
  case 0
  show ?case by simp
next
  case (Suc j)
  let ?xs' = "xs[j := xs ! j + 1]"
  from Suc.prems have j: "j < length xs" by simp
  have tk: "take (Suc j) ?xs' = take j xs @ [xs ! j + 1]"
    using j by (simp add: take_Suc_conv_app_nth)
  have tk0: "take (Suc j) xs = take j xs @ [xs ! j]"
    using j by (simp add: take_Suc_conv_app_nth)
  show ?case
  proof (cases "xs ! j + 1 = 0")
    case False
    then have r: "nextIP_loop xs (Suc j) = ?xs'"
      using j by (simp add: Let_def word_greater_zero_iff)
    have "be_val (take j xs) < 256 ^ j" using be_val_bound [of "take j xs"] j by simp
    moreover have "unat (xs ! j) + 1 < 256"
      using byte_succ_nonzero [OF False] unsigned_less [of "xs ! j + 1", where 'a = nat] by simp
    ultimately have "be_val (take j xs) * 256 + unat (xs ! j) + 1 < 256 ^ Suc j"
      by simp
    then show ?thesis
      unfolding r tk tk0 be_val_snoc byte_succ_nonzero [OF False] by simp
  next
    case True
    then have r: "nextIP_loop xs (Suc j) = nextIP_loop ?xs' j"
      using j by (simp add: Let_def)
    let ?r = "nextIP_loop ?xs' j"
    have dj: "drop j ?r = drop j ?xs'" using nextIP_loop_drop [of j ?xs'] j by simp
    have "?r ! j = ?xs' ! j"
      using j by (metis dj Cons_nth_drop_Suc length_list_update nextIP_loop_length nth_via_drop)
    then have rj: "?r ! j = 0" using j True by simp
    have tkr: "take (Suc j) ?r = take j ?r @ [0]"
      using j rj by (simp add: take_Suc_conv_app_nth)
    have ih: "be_val (take j ?r) = (be_val (take j xs) + 1) mod 256 ^ j"
      using Suc.IH [of ?xs'] j by simp
    have "be_val (take j xs) * 256 + 255 + 1 = (be_val (take j xs) + 1) * 256" by simp
    then have "(be_val (take j xs) * 256 + 255 + 1) mod 256 ^ Suc j
          = ((be_val (take j xs) + 1) mod 256 ^ j) * 256"
      by (simp only: power_Suc2 mult_mod_left)
    then show ?thesis
      unfolding r tkr tk0 be_val_snoc ih byte_succ_zero [OF True] by simp
  qed
qed

lemma nextIP_val: "be_val (nextIP ip) = (be_val ip + 1) mod 256 ^ length ip"
  using nextIP_loop_val [of "length ip" ip] by (simp add: nextIP_def)

lemma nextIP_length [simp]: "length (nextIP ip) = length ip"
  by (simp add: nextIP_def)

lemma nextIP_store_loop_eq:
  "next < length s \<Longrightarrow>
   nextIP_store_loop s next n = s[next := nextIP_loop (s ! next) n]"
proof (induction n arbitrary: s)
  case 0
  show ?case by simp
next
  case (Suc j)
  let ?s' = "s[next := (s ! next)[j := s ! next ! j + 1]]"
  have l: "next < length ?s'" using Suc.prems by simp
  have n: "?s' ! next = (s ! next)[j := s ! next ! j + 1]" using Suc.prems by simp
  show ?case
    using Suc.prems Suc.IH [OF l] by (simp add: Let_def n)
qed

lemma nextIP_store_eq:
  assumes "ip < length s"
  shows "nextIP_store s ip = (s @ [nextIP (s ! ip)], length s)"
proof -
  let ?s1 = "s @ [replicate (length (s ! ip)) 0]"
  let ?s2 = "?s1[length s := ?s1 ! ip]"
  have s2: "?s2 = s @ [s ! ip]" using assms by (simp add: nth_append)
  have "nextIP_store_loop (s @ [s ! ip]) (length s) (length (s ! ip))
        = (s @ [s ! ip])[length s := nextIP_loop (s ! ip) (length (s ! ip))]"
    using nextIP_store_loop_eq [of "length s" "s @ [s ! ip]" "length (s ! ip)"] by simp
  then show ?thesis
    unfolding nextIP_store_def Let_def s2 by (simp add: nextIP_def Let_def)
qed

text \<open>
  C9. \<open>nextIP\<close> writes only to the slice it makes: every array of the store it is called
  in, the argument's among them, is the same afterwards. For an address of 4 bytes, the
  bytes of the result read as a big-endian number are the argument's plus one, modulo
  \<open>2 ^ 32\<close>: an octet that overflows carries into the octet before it.
\<close>

theorem nextIP_successor:
  assumes "ip < length s" and "length (s ! ip) = 4"
  shows "\<exists>s' next. nextIP_store s ip = (s', next)
           \<and> take (length s) s' = s
           \<and> s' ! next = nextIP (s ! ip)
           \<and> length (nextIP (s ! ip)) = 4
           \<and> be_val (nextIP (s ! ip)) = (be_val (s ! ip) + 1) mod 2 ^ 32"
  using assms nextIP_val [of "s ! ip"] by (simp add: nextIP_store_eq)

theorem nextIP_successor_witness:
  "(0::nat) < length [[10, 0, 0, 255 :: byte]] \<and> length ([[10, 0, 0, 255 :: byte]] ! 0) = 4
   \<and> nextIP_store [[10, 0, 0, 255]] 0 = ([[10, 0, 0, 255], [10, 0, 1, 0]], 1)
   \<and> be_val [10, 0, 1, 0] = (be_val [10, 0, 0, 255] + 1) mod 2 ^ 32"
  using nextIP_successor [of 0 "[[10, 0, 0, 255]]"]
  by (simp add: nextIP_def nextIP_store_def Let_def)

subsection \<open>The first-available loop\<close>

lemma loop_post_step:
  assumes "passed_over ipNet g tx nid ip"
    and "loop_post ipNet g nid h tx (nextIP ip) res"
  shows "loop_post ipNet g nid h tx ip res"
proof -
  from assms(2) obtain k where
    p: "\<forall>j<k. passed_over ipNet g tx nid ((nextIP ^^ j) (nextIP ip))"
    and r: "case res of
              LoopReturn tx' \<Rightarrow> tx' = tx
            | LoopEnd e None tx' \<Rightarrow> tx' = tx \<and> \<not> Contains ipNet ((nextIP ^^ k) (nextIP ip))
            | LoopEnd e (Some scanned) tx' \<Rightarrow>
                e = None \<and> taken ipNet g tx nid ((nextIP ^^ k) (nextIP ip))
                \<and> insert_ip tx nid ((nextIP ^^ k) (nextIP ip)) h = (Inr scanned, tx')"
    unfolding loop_post_def by blast
  have sw: "\<And>j. (nextIP ^^ j) (nextIP ip) = (nextIP ^^ Suc j) ip"
    by (simp add: funpow_swap1)
  have "\<forall>j<Suc k. passed_over ipNet g tx nid ((nextIP ^^ j) ip)"
  proof (intro allI impI)
    fix j assume "j < Suc k"
    show "passed_over ipNet g tx nid ((nextIP ^^ j) ip)"
    proof (cases j)
      case 0
      then show ?thesis using assms(1) by simp
    next
      case (Suc j')
      then have "j' < k" using \<open>j < Suc k\<close> by simp
      then show ?thesis using p sw Suc by simp
    qed
  qed
  moreover have "case res of
              LoopReturn tx' \<Rightarrow> tx' = tx
            | LoopEnd e None tx' \<Rightarrow> tx' = tx \<and> \<not> Contains ipNet ((nextIP ^^ Suc k) ip)
            | LoopEnd e (Some scanned) tx' \<Rightarrow>
                e = None \<and> taken ipNet g tx nid ((nextIP ^^ Suc k) ip)
                \<and> insert_ip tx nid ((nextIP ^^ Suc k) ip) h = (Inr scanned, tx')"
    using r unfolding sw .
  ultimately show ?thesis unfolding loop_post_def by blast
qed

lemma loop_post_now:
  assumes "case res of
              LoopReturn tx' \<Rightarrow> tx' = tx
            | LoopEnd e None tx' \<Rightarrow> tx' = tx \<and> \<not> Contains ipNet ip
            | LoopEnd e (Some scanned) tx' \<Rightarrow>
                e = None \<and> taken ipNet g tx nid ip
                \<and> insert_ip tx nid ip h = (Inr scanned, tx')"
  shows "loop_post ipNet g nid h tx ip res"
  unfolding loop_post_def using assms
  by (intro exI [of _ 0]) (simp split: loop_exit.splits option.splits)

lemma insert_ip_if_absent_cases:
  "insert_ip_if_absent tx nid ip h = (r, tx') \<Longrightarrow>
     (r = Inl ErrInput \<and> tx' = tx \<and> inet_of_IP ip = None)
   \<or> (r = Inl ErrNoRows \<and> tx' = tx \<and> occupied tx nid ip)
   \<or> (\<exists>s. r = Inr s \<and> \<not> occupied tx nid ip \<and> insert_ip tx nid ip h = (Inr s, tx'))"
  by (auto simp: insert_ip_if_absent_def occupied_def insert_ip_def Let_def
           split: option.splits if_splits)

lemma first_available_post:
  assumes "first_available ipNet0 g0 nid0 h0 tx0 err0 ip0 = Some res0"
  shows "loop_post ipNet0 g0 nid0 h0 tx0 ip0 res0"
proof (rule first_available.raw_induct
         [where P = "\<lambda>ipNet g nid h tx err ip res. loop_post ipNet g nid h tx ip res",
          OF _ assms])
  fix f ipNet g nid h tx err ip res
  assume IH: "\<And>ipNet g nid h tx err ip res.
                f ipNet g nid h tx err ip = Some res \<Longrightarrow> loop_post ipNet g nid h tx ip res"
    and body: "(if Contains ipNet ip then
        (if Equal ip g
         then f ipNet g nid h tx err (nextIP ip)
         else (case insert_ip_if_absent tx nid ip h of
                 (Inr scanned, tx') \<Rightarrow> Some (LoopEnd None (Some scanned) tx')
               | (Inl e, tx') \<Rightarrow>
                   if e \<noteq> ErrNoRows then Some (LoopReturn tx')
                   else f ipNet g nid h tx' (Some e) (nextIP ip)))
      else Some (LoopEnd err None tx)) = Some res"
  show "loop_post ipNet g nid h tx ip res"
  proof (cases "Contains ipNet ip")
    case False
    with body have "res = LoopEnd err None tx" by simp
    then show ?thesis using False by (intro loop_post_now) simp
  next
    case c: True
    show ?thesis
    proof (cases "Equal ip g")
      case True
      with c body have "f ipNet g nid h tx err (nextIP ip) = Some res" by simp
      then have "loop_post ipNet g nid h tx (nextIP ip) res" by (rule IH)
      moreover have "passed_over ipNet g tx nid ip"
        using c True by (simp add: passed_over_def)
      ultimately show ?thesis by (rule loop_post_step [rotated])
    next
      case ne: False
      obtain r tx' where i: "insert_ip_if_absent tx nid ip h = (r, tx')"
        by (cases "insert_ip_if_absent tx nid ip h")
      from insert_ip_if_absent_cases [OF i] consider
          (input) "r = Inl ErrInput" "tx' = tx"
        | (norows) "r = Inl ErrNoRows" "tx' = tx" "occupied tx nid ip"
        | (ok) s where "r = Inr s" "\<not> occupied tx nid ip"
            "insert_ip tx nid ip h = (Inr s, tx')"
        by blast
      then show ?thesis
      proof cases
        case input
        with c ne i body have "res = LoopReturn tx" by simp
        then show ?thesis by (intro loop_post_now) simp
      next
        case norows
        with c ne i body
        have "f ipNet g nid h tx (Some ErrNoRows) (nextIP ip) = Some res" by simp
        then have "loop_post ipNet g nid h tx (nextIP ip) res" by (rule IH)
        moreover have "passed_over ipNet g tx nid ip"
          using c norows by (simp add: passed_over_def)
        ultimately show ?thesis by (rule loop_post_step [rotated])
      next
        case ok
        with c ne i body have "res = LoopEnd None (Some s) tx'" by simp
        then show ?thesis
          using c ne ok by (intro loop_post_now) (simp add: taken_def)
      qed
    qed
  qed
qed

lemma loop_post_error:
  assumes "loop_post ipNet g nid h tx ip res"
  shows "(case res of
            LoopReturn tx' \<Rightarrow> tx' = tx
          | LoopEnd e None tx' \<Rightarrow> tx' = tx
          | LoopEnd e (Some scanned) tx' \<Rightarrow>
              e = None \<and> networks_id_seq tx' = networks_id_seq tx)"
proof (cases res)
  case (LoopReturn tx')
  with assms show ?thesis by (auto simp: loop_post_def)
next
  case (LoopEnd e scanned tx')
  show ?thesis
  proof (cases scanned)
    case None
    with assms LoopEnd show ?thesis by (auto simp: loop_post_def)
  next
    case (Some s)
    with assms LoopEnd obtain k where e: "e = None"
      and i: "insert_ip tx nid ((nextIP ^^ k) ip) h = (Inr s, tx')"
      by (auto simp: loop_post_def)
    from i have "networks_id_seq tx' = networks_id_seq tx"
      by (auto simp: insert_ip_def Let_def split: option.splits)
    with e LoopEnd Some show ?thesis by simp
  qed
qed

subsection \<open>Transactions, and addresses through the store and back\<close>

lemma Rollback_same [simp]: "Rollback d d = d"
  by (simp add: Rollback_def)

lemma Begin_same [simp]: "Begin d = d"
  by (simp add: Begin_def)

lemma Commit_same [simp]: "Commit d = d"
  by (simp add: Commit_def)

lemma isZeros_replicate: "isZeros p \<longleftrightarrow> p = replicate (length p) 0"
  by (induction p) (auto simp: isZeros_def)

lemma v4InV6Prefix_replicate: "v4InV6Prefix = replicate 10 0 @ [0xff, 0xff]"
  by (simp add: v4InV6Prefix_def numeral_eq_Suc)

lemma length_v4InV6Prefix [simp]: "length v4InV6Prefix = 12"
  by (simp add: v4InV6Prefix_def)

lemma take12:
  assumes "length ip = 16"
  shows "take 12 ip = take 10 ip @ [ip ! 10, ip ! 11]"
proof -
  have a: "take (Suc 10) ip = take 10 ip @ [ip ! 10]"
    by (rule take_Suc_conv_app_nth) (simp add: assms)
  have b: "take (Suc 11) ip = take 11 ip @ [ip ! 11]"
    by (rule take_Suc_conv_app_nth) (simp add: assms)
  have "Suc 10 = 11" and "Suc 11 = 12" by simp_all
  with a b show ?thesis by simp
qed

lemma To4_16:
  assumes "length ip = 16" and "To4 ip = Some p4"
  shows "ip = v4InV6Prefix @ p4"
proof -
  from assms have z: "isZeros (take 10 ip)" and a: "ip ! 10 = 0xff" and b: "ip ! 11 = 0xff"
    and p: "p4 = drop 12 ip"
    by (auto simp: To4_def split: if_splits)
  from z have "take 10 ip = replicate 10 0"
    using assms(1) by (simp add: isZeros_replicate)
  then have "take 12 ip = v4InV6Prefix"
    using a b by (simp add: take12 [OF assms(1)] v4InV6Prefix_replicate)
  then show ?thesis using p by (metis append_take_drop_id)
qed

lemma To4_prefix:
  assumes "length p4 = 4"
  shows "To4 (v4InV6Prefix @ p4) = Some p4"
  using assms by (simp add: To4_def isZeros_def v4InV6Prefix_def)

lemma roundtrip_cases:
  assumes "inet_of_IP ip = Some a"
  shows "(length ip = 4 \<and> IP_of_inet a = v4InV6Prefix @ ip) \<or> (length ip = 16 \<and> IP_of_inet a = ip)"
proof (cases "length ip = 4")
  case True
  then have "a = Inet ip 32" using assms by (simp add: inet_of_IP_def To4_def)
  then show ?thesis using True by (simp add: IP_of_inet_def)
next
  case False
  then have l: "length ip = 16" using assms by (auto simp: inet_of_IP_def split: if_splits)
  show ?thesis
  proof (cases "To4 ip")
    case None
    then have "a = Inet ip 128" using assms l by (simp add: inet_of_IP_def)
    then show ?thesis using l by (simp add: IP_of_inet_def)
  next
    case (Some p4)
    then have i: "ip = v4InV6Prefix @ p4" using l by (rule To4_16 [rotated])
    have "length ip = 12 + length p4" by (subst i) simp
    then have "length p4 = 4" using l by simp
    moreover have "a = Inet p4 32" using assms l Some by (simp add: inet_of_IP_def)
    ultimately show ?thesis using l i by (simp add: IP_of_inet_def)
  qed
qed

lemma To4_roundtrip:
  assumes "inet_of_IP ip = Some a"
  shows "(case To4 (IP_of_inet a) of Some x \<Rightarrow> x | None \<Rightarrow> IP_of_inet a)
         = (case To4 ip of Some x \<Rightarrow> x | None \<Rightarrow> ip)"
  using roundtrip_cases [OF assms]
  by (auto simp: To4_prefix) (simp add: To4_def)

lemma Contains_roundtrip:
  assumes "inet_of_IP ip = Some a"
  shows "Contains ipNet (IP_of_inet a) = Contains ipNet ip"
  unfolding Contains_def To4_roundtrip [OF assms] ..

lemma Equal_prefix:
  assumes "length ip = 4"
  shows "Equal (v4InV6Prefix @ ip) x = Equal ip x"
proof -
  consider "length x = 4" | "length x = 16" | "length x \<noteq> 4" "length x \<noteq> 16" by blast
  then show ?thesis
  proof cases
    case 1
    then show ?thesis using assms by (auto simp: Equal_def)
  next
    case 2
    have "v4InV6Prefix @ ip = x \<longleftrightarrow> take 12 x = v4InV6Prefix \<and> ip = drop 12 x"
      by (metis append_eq_conv_conj length_v4InV6Prefix)
    then show ?thesis using assms 2 by (simp add: Equal_def)
  next
    case 3
    then show ?thesis using assms by (simp add: Equal_def)
  qed
qed

lemma Equal_roundtrip:
  assumes "inet_of_IP ip = Some a"
  shows "Equal (IP_of_inet a) x = Equal ip x"
  using roundtrip_cases [OF assms] by (auto simp: Equal_prefix)

lemma Equal_refl [simp]: "Equal ip ip"
  by (simp add: Equal_def)

subsection \<open>The paths of \<open>AllocateIP\<close>\<close>

lemma hostname_check:
  "(case QueryRow scan_hostname (select_hostname d nid h) of
      Inr x \<Rightarrow> A | Inl err \<Rightarrow> if err \<noteq> ErrNoRows then B else C)
   = (if hostname_held d nid h then A else C)"
proof (cases "select_hostname d nid h")
  case Nil
  then have "\<not> hostname_held d nid h"
    by (auto simp: hostname_held_def select_hostname_def list_ex_iff filter_empty_conv)
  with Nil show ?thesis by (simp add: QueryRow_def)
next
  case (Cons r rs)
  then have "r \<in> set (select_hostname d nid h)" by simp
  then have r: "r \<in> set (ip_addresses d)" "a_network_id r = nid" "a_hostname r = Some h"
    by (auto simp: select_hostname_def)
  then have "hostname_held d nid h" by (auto simp: hostname_held_def list_ex_iff)
  with Cons r show ?thesis by (simp add: QueryRow_def scan_hostname_def)
qed

lemma address_check:
  assumes "inet_of_IP ip = Some a"
  shows "(case select_address d nid ip of
            Inl err \<Rightarrow> A
          | Inr rows \<Rightarrow>
              (case QueryRow scan_id_address rows of
                 Inr found \<Rightarrow> B
               | Inl err \<Rightarrow> if err \<noteq> ErrNoRows then A' else C))
         = (if occupied d nid ip then B else C)"
proof (cases "filter (\<lambda>r. a_network_id r = nid \<and> a_address r = a) (ip_addresses d)")
  case Nil
  then have "\<not> occupied d nid ip"
    using assms by (auto simp: occupied_def list_ex_iff filter_empty_conv)
  with Nil assms show ?thesis by (simp add: select_address_def QueryRow_def)
next
  case (Cons r rs)
  then have "r \<in> set (filter (\<lambda>r. a_network_id r = nid \<and> a_address r = a) (ip_addresses d))"
    by simp
  then have "occupied d nid ip" using assms by (auto simp: occupied_def list_ex_iff)
  with Cons assms show ?thesis by (simp add: select_address_def QueryRow_def scan_id_address_def)
qed

lemma AllocateIP_with_begin:
  "begin_fails f \<Longrightarrow> AllocateIP_with f d nid req h = Some (Inl BeginFailed, d)"
  by (simp add: AllocateIP_with_def)

lemma AllocateIP_with_held:
  "\<not> begin_fails f \<Longrightarrow> hostname_held d nid h \<Longrightarrow>
   AllocateIP_with f d nid req h = Some (Inl HostnameInUse, d)"
  unfolding AllocateIP_with_def Let_def Begin_same hostname_check by simp

lemma AllocateIP_with_no_gateway:
  "\<not> begin_fails f \<Longrightarrow> \<not> hostname_held d nid h \<Longrightarrow> network_gateway d nid = None \<Longrightarrow>
   \<exists>e. AllocateIP_with f d nid req h = Some (Inl e, d)
       \<and> (e = NetworkDetailsFailed \<or> e = InvalidGateway)"
  unfolding AllocateIP_with_def Let_def Begin_same hostname_check
  by (auto simp: network_gateway_def split: sum.splits option.splits)

lemma AllocateIP_with_explicit:
  assumes "\<not> begin_fails f" and "\<not> hostname_held d nid h"
    and "network_gateway d nid = Some g"
  shows "AllocateIP_with f d nid (Some ip) h =
     (if Equal ip g then Some (Inl GatewayAddress, d)
      else case inet_of_IP ip of
             None \<Rightarrow> Some (Inl CheckIPFailed, d)
           | Some a \<Rightarrow>
               if occupied d nid ip then Some (Inl AlreadyAllocated, d)
               else if commit_fails f
               then Some (Inl CommitFailed,
                          d\<lparr>ip_addresses_id_seq := ip_addresses_id_seq d + 1\<rparr>)
               else Some (Inr \<lparr>ID = ip_addresses_id_seq d + 1, NetworkID = nid,
                              Address = IP_of_inet a, Hostname = h, Status = ''allocated''\<rparr>,
                          d\<lparr>ip_addresses := ip_addresses d @
                                [\<lparr>a_id = ip_addresses_id_seq d + 1, a_network_id = nid,
                                  a_address = a, a_hostname = Some h,
                                  a_status = ''allocated''\<rparr>],
                            ip_addresses_id_seq := ip_addresses_id_seq d + 1\<rparr>))"
proof -
  obtain c gw where n: "QueryRow scan_network (select_network d nid) = Inr (c, gw)"
    and g: "ParseIP_gateway gw = Some g"
    using assms(3) by (auto simp: network_gateway_def split: sum.splits)
  show ?thesis
  proof (cases "inet_of_IP ip")
    case None
    then show ?thesis
      unfolding AllocateIP_with_def Let_def Begin_same hostname_check
      using assms(1,2) n g by (simp add: select_address_def)
  next
    case (Some a)
    show ?thesis
      unfolding AllocateIP_with_def Let_def Begin_same hostname_check option.case
        address_check [OF Some]
      using assms(1,2) n g Some
      by (simp add: insert_ip_def AllocateIP_finish_def Let_def Rollback_def)
  qed
qed

lemma AllocateIP_with_first:
  assumes "\<not> begin_fails f" and "\<not> hostname_held d nid h"
    and "network_gateway d nid = Some g" and "network_block d nid = Some ipNet"
  shows "AllocateIP_with f d nid None h =
     (case first_available ipNet g nid h d None (nextIP (net_IP ipNet)) of
        None \<Rightarrow> None
      | Some (LoopReturn tx') \<Rightarrow> Some (Inl AllocateFailed, Rollback d tx')
      | Some (LoopEnd err scanned tx') \<Rightarrow>
          if err = Some ErrNoRows then Some (Inl NoAvailable, Rollback d tx')
          else Some (AllocateIP_finish (commit_fails f) d tx' nid h None scanned))"
proof -
  obtain c gw where n: "QueryRow scan_network (select_network d nid) = Inr (c, gw)"
    and g: "ParseIP_gateway gw = Some g"
    using assms(3) by (auto simp: network_gateway_def split: sum.splits)
  from assms(4) n have b: "ParseCIDR c = Some ipNet" by (simp add: network_block_def)
  show ?thesis
    unfolding AllocateIP_with_def Let_def Begin_same hostname_check
    using assms(1,2) n g b by simp
qed

lemma AllocateIP_with_first_no_block:
  assumes "\<not> begin_fails f" and "\<not> hostname_held d nid h"
    and "network_gateway d nid = Some g" and "network_block d nid = None"
  shows "AllocateIP_with f d nid None h = Some (Inl ParseCIDRFailed, d)"
proof -
  obtain c gw where n: "QueryRow scan_network (select_network d nid) = Inr (c, gw)"
    and g: "ParseIP_gateway gw = Some g"
    using assms(3) by (auto simp: network_gateway_def split: sum.splits)
  from assms(4) n have b: "ParseCIDR c = None" by (simp add: network_block_def)
  show ?thesis
    unfolding AllocateIP_with_def Let_def Begin_same hostname_check
    using assms(1,2) n g b by simp
qed

lemma no_faults_simps [simp]: "\<not> begin_fails no_faults" "commit_fails no_faults = False"
  by (simp_all add: no_faults_def)

lemma AllocateIP_held:
  "hostname_held d nid h \<Longrightarrow> AllocateIP d nid req h = Some (Inl HostnameInUse, d)"
  unfolding AllocateIP_def by (simp add: AllocateIP_with_held)

lemma AllocateIP_no_gateway:
  "\<not> hostname_held d nid h \<Longrightarrow> network_gateway d nid = None \<Longrightarrow>
   \<exists>e. AllocateIP d nid req h = Some (Inl e, d)
       \<and> (e = NetworkDetailsFailed \<or> e = InvalidGateway)"
  unfolding AllocateIP_def by (rule AllocateIP_with_no_gateway) simp_all

lemma AllocateIP_explicit:
  assumes "\<not> hostname_held d nid h" and "network_gateway d nid = Some g"
  shows "AllocateIP d nid (Some ip) h =
     (if Equal ip g then Some (Inl GatewayAddress, d)
      else case inet_of_IP ip of
             None \<Rightarrow> Some (Inl CheckIPFailed, d)
           | Some a \<Rightarrow>
               if occupied d nid ip then Some (Inl AlreadyAllocated, d)
               else Some (Inr \<lparr>ID = ip_addresses_id_seq d + 1, NetworkID = nid,
                              Address = IP_of_inet a, Hostname = h, Status = ''allocated''\<rparr>,
                          d\<lparr>ip_addresses := ip_addresses d @
                                [\<lparr>a_id = ip_addresses_id_seq d + 1, a_network_id = nid,
                                  a_address = a, a_hostname = Some h,
                                  a_status = ''allocated''\<rparr>],
                            ip_addresses_id_seq := ip_addresses_id_seq d + 1\<rparr>))"
  unfolding AllocateIP_def AllocateIP_with_explicit [OF no_faults_simps(1) assms]
  by (simp split: option.splits)

lemma AllocateIP_first:
  assumes "\<not> hostname_held d nid h" and "network_gateway d nid = Some g"
    and "network_block d nid = Some ipNet"
  shows "AllocateIP d nid None h =
     (case first_available ipNet g nid h d None (nextIP (net_IP ipNet)) of
        None \<Rightarrow> None
      | Some (LoopReturn tx') \<Rightarrow> Some (Inl AllocateFailed, Rollback d tx')
      | Some (LoopEnd err scanned tx') \<Rightarrow>
          if err = Some ErrNoRows then Some (Inl NoAvailable, Rollback d tx')
          else Some (AllocateIP_finish False d tx' nid h None scanned))"
  unfolding AllocateIP_def AllocateIP_with_first [OF no_faults_simps(1) assms]
    no_faults_simps(2) ..

lemma AllocateIP_first_no_block:
  assumes "\<not> hostname_held d nid h" and "network_gateway d nid = Some g"
    and "network_block d nid = None"
  shows "AllocateIP d nid None h = Some (Inl ParseCIDRFailed, d)"
  unfolding AllocateIP_def by (rule AllocateIP_with_first_no_block [OF _ assms]) simp

lemma insert_ip_Inr:
  "insert_ip tx nid ip h = (Inr (i, a), tx') \<Longrightarrow>
   inet_of_IP ip = Some a \<and> i = ip_addresses_id_seq tx + 1
   \<and> tx' = tx\<lparr>ip_addresses := ip_addresses tx @
                 [\<lparr>a_id = i, a_network_id = nid, a_address = a,
                   a_hostname = Some h, a_status = ''allocated''\<rparr>],
               ip_addresses_id_seq := i\<rparr>"
  by (auto simp: insert_ip_def Let_def split: option.splits)

lemma AllocateIP_first_success:
  assumes "AllocateIP d nid None h = Some (Inr ipAddress, d')"
  shows "\<exists>g ipNet k a.
           \<not> hostname_held d nid h
         \<and> network_gateway d nid = Some g \<and> network_block d nid = Some ipNet
         \<and> (\<forall>j<k. passed_over ipNet g d nid (candidate ipNet (Suc j)))
         \<and> taken ipNet g d nid (candidate ipNet (Suc k))
         \<and> inet_of_IP (candidate ipNet (Suc k)) = Some a
         \<and> Address ipAddress = IP_of_inet a"
proof -
  have nh: "\<not> hostname_held d nid h"
    using assms AllocateIP_held [of d nid h None] by auto
  obtain g where g: "network_gateway d nid = Some g"
    using assms AllocateIP_no_gateway [OF nh, of None] by (cases "network_gateway d nid") auto
  obtain ipNet where b: "network_block d nid = Some ipNet"
    using assms AllocateIP_first_no_block [OF nh g] by (cases "network_block d nid") auto
  note eq = AllocateIP_first [OF nh g b]
  obtain res where r: "first_available ipNet g nid h d None (nextIP (net_IP ipNet)) = Some res"
    using assms eq by (cases "first_available ipNet g nid h d None (nextIP (net_IP ipNet))") auto
  from assms eq r obtain e i a tx' where res: "res = LoopEnd e (Some (i, a)) tx'"
    and addr: "Address ipAddress = IP_of_inet a"
    by (auto simp: AllocateIP_finish_def split: loop_exit.splits if_splits option.splits)
  from first_available_post [OF r] res obtain k where
    p: "\<forall>j<k. passed_over ipNet g d nid ((nextIP ^^ j) (nextIP (net_IP ipNet)))"
    and t: "taken ipNet g d nid ((nextIP ^^ k) (nextIP (net_IP ipNet)))"
    and i: "insert_ip d nid ((nextIP ^^ k) (nextIP (net_IP ipNet))) h = (Inr (i, a), tx')"
    unfolding loop_post_def by auto
  have sw: "\<And>j. (nextIP ^^ j) (nextIP (net_IP ipNet)) = candidate ipNet (Suc j)"
    by (simp add: candidate_def funpow_swap1)
  from insert_ip_Inr [OF i] have "inet_of_IP (candidate ipNet (Suc k)) = Some a"
    by (simp add: sw)
  with nh g b p t addr show ?thesis unfolding sw by blast
qed

lemma AllocateIP_first_exhausted:
  assumes "AllocateIP d nid None h = Some (Inl NoAvailable, d')"
  shows "\<exists>g ipNet k.
           network_gateway d nid = Some g \<and> network_block d nid = Some ipNet
         \<and> (\<forall>j<k. passed_over ipNet g d nid (candidate ipNet (Suc j)))
         \<and> \<not> Contains ipNet (candidate ipNet (Suc k))"
proof -
  have nh: "\<not> hostname_held d nid h"
    using assms AllocateIP_held [of d nid h None] by auto
  obtain g where g: "network_gateway d nid = Some g"
    using assms AllocateIP_no_gateway [OF nh, of None] by (cases "network_gateway d nid") auto
  obtain ipNet where b: "network_block d nid = Some ipNet"
    using assms AllocateIP_first_no_block [OF nh g] by (cases "network_block d nid") auto
  note eq = AllocateIP_first [OF nh g b]
  obtain res where r: "first_available ipNet g nid h d None (nextIP (net_IP ipNet)) = Some res"
    using assms eq by (cases "first_available ipNet g nid h d None (nextIP (net_IP ipNet))") auto
  from assms eq r obtain scanned tx' where res: "res = LoopEnd (Some ErrNoRows) scanned tx'"
    by (auto simp: AllocateIP_finish_def split: loop_exit.splits if_splits option.splits)
  from first_available_post [OF r] res obtain k where
    p: "\<forall>j<k. passed_over ipNet g d nid ((nextIP ^^ j) (nextIP (net_IP ipNet)))"
    and t: "\<not> Contains ipNet ((nextIP ^^ k) (nextIP (net_IP ipNet)))"
    unfolding loop_post_def by (auto split: option.splits)
  have sw: "\<And>j. (nextIP ^^ j) (nextIP (net_IP ipNet)) = candidate ipNet (Suc j)"
    by (simp add: candidate_def funpow_swap1)
  from g b p t show ?thesis unfolding sw by blast
qed

subsection \<open>What \<open>AllocateIP\<close> returns and writes\<close>

text \<open>
  C5. When \<open>AllocateIP\<close> returns an error, whatever the store refuses, the two tables are
  what they were before the call: a unit that wrote is rolled back, also when it is the
  commit that fails after the INSERT, and the error that is returned after a commit, for
  an address that does not parse, comes only when no statement has written. Of the whole
  store only the sequence of the address identifiers can differ, which PostgreSQL does not
  roll back, and only when the commit was refused.
\<close>

theorem AllocateIP_error_no_write:
  assumes "AllocateIP_with f d networkID requestedIP hostname = Some (Inl e, d')"
  shows "networks d' = networks d \<and> ip_addresses d' = ip_addresses d
         \<and> networks_id_seq d' = networks_id_seq d
         \<and> (\<not> commit_fails f \<longrightarrow> d' = d)"
proof (cases "begin_fails f")
  case True
  from assms AllocateIP_with_begin [OF True, of d networkID requestedIP hostname]
  show ?thesis by simp
next
  case nb: False
  show ?thesis
  proof (cases "hostname_held d networkID hostname")
    case True
    from assms AllocateIP_with_held [OF nb True, of requestedIP] show ?thesis by simp
  next
    case nh: False
    show ?thesis
    proof (cases "network_gateway d networkID")
      case None
      from assms AllocateIP_with_no_gateway [OF nb nh None, of requestedIP]
      show ?thesis by auto
    next
      case g: (Some gatewayIP)
      show ?thesis
      proof (cases requestedIP)
        case (Some ip)
        from assms show ?thesis
          unfolding Some AllocateIP_with_explicit [OF nb nh g]
          by (auto split: if_splits option.splits)
      next
        case None
        show ?thesis
        proof (cases "network_block d networkID")
          case n: None
          from assms show ?thesis
            unfolding None AllocateIP_with_first_no_block [OF nb nh g n] by simp
        next
          case b: (Some ipNet)
          note eq = assms [unfolded None AllocateIP_with_first [OF nb nh g b]]
          then obtain res where
            r: "first_available ipNet gatewayIP networkID hostname d None
                  (nextIP (net_IP ipNet)) = Some res"
            by (cases "first_available ipNet gatewayIP networkID hostname d None
                         (nextIP (net_IP ipNet))") auto
          from loop_post_error [OF first_available_post [OF r]] eq show ?thesis
            unfolding r
            by (auto simp: AllocateIP_finish_def Rollback_def
                     split: loop_exit.splits option.splits if_splits)
        qed
      qed
    qed
  qed
qed

theorem AllocateIP_error_no_write_witness:
  "AllocateIP_with \<lparr>begin_fails = False, commit_fails = True\<rparr> db30 1 None ''h1''
     = Some (Inl CommitFailed, db30\<lparr>ip_addresses_id_seq := 1\<rparr>)
   \<and> AllocateIP_with \<lparr>begin_fails = False, commit_fails = True\<rparr> db30 1
        (Some [10, 0, 0, 2]) ''h1''
     = Some (Inl CommitFailed, db30\<lparr>ip_addresses_id_seq := 1\<rparr>)
   \<and> ip_addresses (db30\<lparr>ip_addresses_id_seq := 1\<rparr>) = ip_addresses db30
   \<and> networks (db30\<lparr>ip_addresses_id_seq := 1\<rparr>) = networks db30
   \<and> AllocateIP_with \<lparr>begin_fails = True, commit_fails = False\<rparr> db30 1 None ''h1''
     = Some (Inl BeginFailed, db30)
   \<and> AllocateIP_with no_faults db30_released 1 (Some [10, 0, 0, 2]) ''h2''
     = Some (Inl AlreadyAllocated, db30_released)
   \<and> AllocateIP_with no_faults db30_two 1 None ''h3'' = Some (Inl NoAvailable, db30_two)"
proof -
  have a: "AllocateIP_with \<lparr>begin_fails = False, commit_fails = True\<rparr> db30 1 None ''h1''
             = Some (Inl CommitFailed, db30\<lparr>ip_addresses_id_seq := 1\<rparr>)"
    and b: "AllocateIP_with \<lparr>begin_fails = False, commit_fails = True\<rparr> db30 1
              (Some [10, 0, 0, 2]) ''h1''
             = Some (Inl CommitFailed, db30\<lparr>ip_addresses_id_seq := 1\<rparr>)"
    and c: "AllocateIP_with \<lparr>begin_fails = True, commit_fails = False\<rparr> db30 1 None ''h1''
             = Some (Inl BeginFailed, db30)"
    by code_simp+
  have "allocation_error (AllocateIP_with no_faults db30_released 1 (Some [10, 0, 0, 2]) ''h2'')
          = Some AlreadyAllocated"
    and "allocation_error (AllocateIP_with no_faults db30_two 1 None ''h3'') = Some NoAvailable"
    by code_simp+
  then obtain d' d'' where
    x: "AllocateIP_with no_faults db30_released 1 (Some [10, 0, 0, 2]) ''h2''
          = Some (Inl AlreadyAllocated, d')"
    and y: "AllocateIP_with no_faults db30_two 1 None ''h3'' = Some (Inl NoAvailable, d'')"
    by (auto simp: allocation_error_def split: option.splits sum.splits prod.splits)
  from AllocateIP_error_no_write [OF a] AllocateIP_error_no_write [OF b]
       AllocateIP_error_no_write [OF x] AllocateIP_error_no_write [OF y] a b c x y
  show ?thesis by simp
qed

text \<open>
  C1, as amended. The address of the record \<open>AllocateIP\<close> returns is never the gateway of
  the network. When no address was requested it lies within the block of the network.
  When an address was requested it is that address, which the code does not compare with
  the block.
\<close>

theorem AllocateIP_address:
  assumes "AllocateIP d networkID requestedIP hostname = Some (Inr ipAddress, d')"
  shows "\<exists>gatewayIP. network_gateway d networkID = Some gatewayIP
           \<and> \<not> Equal (Address ipAddress) gatewayIP
           \<and> (case requestedIP of
                 Some ip \<Rightarrow> Equal (Address ipAddress) ip
               | None \<Rightarrow> \<exists>ipNet. network_block d networkID = Some ipNet
                                  \<and> Contains ipNet (Address ipAddress))"
proof (cases requestedIP)
  case None
  from AllocateIP_first_success [OF assms [unfolded None]] obtain g ipNet k a where
    g: "network_gateway d networkID = Some g" and b: "network_block d networkID = Some ipNet"
    and t: "taken ipNet g d networkID (candidate ipNet (Suc k))"
    and a: "inet_of_IP (candidate ipNet (Suc k)) = Some a"
    and addr: "Address ipAddress = IP_of_inet a"
    by blast
  from t have "Contains ipNet (Address ipAddress)" "\<not> Equal (Address ipAddress) g"
    unfolding addr Contains_roundtrip [OF a] Equal_roundtrip [OF a] taken_def by simp_all
  with g b None show ?thesis by simp
next
  case (Some ip)
  have nh: "\<not> hostname_held d networkID hostname"
    using assms AllocateIP_held [of d networkID hostname requestedIP] by auto
  obtain g where g: "network_gateway d networkID = Some g"
    using assms AllocateIP_no_gateway [OF nh, of requestedIP]
    by (cases "network_gateway d networkID") auto
  from assms [unfolded Some AllocateIP_explicit [OF nh g]]
  obtain a where ne: "\<not> Equal ip g" and a: "inet_of_IP ip = Some a"
    and addr: "Address ipAddress = IP_of_inet a"
    by (auto split: if_splits option.splits)
  have "\<not> Equal (Address ipAddress) g" "Equal (Address ipAddress) ip"
    unfolding addr Equal_roundtrip [OF a] using ne by simp_all
  with g Some show ?thesis by simp
qed

theorem AllocateIP_address_witness:
  "AllocateIP db30 1 None ''h1'' = Some (Inr ip2, db30_allocated)
   \<and> network_gateway db30 1 = Some (v4InV6Prefix @ [10, 0, 0, 1])
   \<and> \<not> Equal (Address ip2) (v4InV6Prefix @ [10, 0, 0, 1])
   \<and> network_block db30 1 = Some block30
   \<and> Contains block30 (Address ip2)"
proof -
  have a: "AllocateIP db30 1 None ''h1'' = Some (Inr ip2, db30_allocated)"
    by code_simp
  have g: "network_gateway db30 1 = Some (v4InV6Prefix @ [10, 0, 0, 1])"
    and b: "network_block db30 1 = Some block30"
    by code_simp+
  from AllocateIP_address [OF a] g b a show ?thesis by simp
qed

text \<open>
  C1 as stated fails: in the network 10.0.0.0/30 the requested address 192.168.1.5 is
  allocated, and it is outside the block.
\<close>

theorem AllocateIP_address_counterexample:
  "allocated_address (AllocateIP db30 1 (Some [192, 168, 1, 5]) ''h1'')
     = Some (v4InV6Prefix @ [192, 168, 1, 5])
   \<and> network_block db30 1 = Some block30
   \<and> \<not> Contains block30 (v4InV6Prefix @ [192, 168, 1, 5])"
  by code_simp

subsection \<open>Hostname conflicts\<close>

lemma AllocateIP_not_held_error:
  assumes "\<not> hostname_held d nid h"
  shows "allocation_error (AllocateIP d nid req h) \<noteq> Some HostnameInUse"
proof (cases "network_gateway d nid")
  case None
  from AllocateIP_no_gateway [OF assms None, of req] show ?thesis
    by (auto simp: allocation_error_def)
next
  case (Some g)
  show ?thesis
  proof (cases req)
    case (Some ip)
    show ?thesis
      unfolding Some AllocateIP_explicit [OF assms \<open>network_gateway d nid = Some g\<close>]
      by (simp add: allocation_error_def split: option.splits)
  next
    case None
    show ?thesis
    proof (cases "network_block d nid")
      case n: None
      show ?thesis
        unfolding None AllocateIP_first_no_block [OF assms \<open>network_gateway d nid = Some g\<close> n]
        by (simp add: allocation_error_def)
    next
      case (Some ipNet)
      show ?thesis
        unfolding None AllocateIP_first [OF assms \<open>network_gateway d nid = Some g\<close> Some]
        by (simp add: allocation_error_def AllocateIP_finish_def
                 split: option.splits loop_exit.splits)
    qed
  qed
qed

lemma UpdateIPHostname_conflict:
  "(fst (UpdateIPHostname d i h) = Some HostnameInUse) = hostname_held_by_other d i h"
proof (cases "select_ip d i")
  case Nil
  then show ?thesis
    by (simp add: UpdateIPHostname_def hostname_held_by_other_def QueryRow_def)
next
  case (Cons r rs)
  show ?thesis
  proof (cases "select_hostname_other d (a_network_id r) h i")
    case Nil
    then have "\<not> hostname_held_by_other d i h"
      using Cons
      by (auto simp: hostname_held_by_other_def select_hostname_other_def list_ex_iff
                     filter_empty_conv)
    with Nil Cons show ?thesis
      by (simp add: UpdateIPHostname_def QueryRow_def scan_network_id_def update_hostname_def)
  next
    case c: (Cons r' rs')
    then have "r' \<in> set (select_hostname_other d (a_network_id r) h i)" by simp
    then have r': "r' \<in> set (ip_addresses d)" "a_network_id r' = a_network_id r"
      "a_hostname r' = Some h" "a_id r' \<noteq> i"
      by (auto simp: select_hostname_other_def)
    then have "hostname_held_by_other d i h"
      using Cons by (auto simp: hostname_held_by_other_def list_ex_iff)
    with c Cons r' show ?thesis
      by (simp add: UpdateIPHostname_def QueryRow_def scan_network_id_def scan_hostname_def)
  qed
qed

text \<open>
  C2, as amended. \<open>AllocateIP\<close> fails with the hostname conflict exactly when some record
  of the network holds the requested hostname, and \<open>UpdateIPHostname\<close> exactly when the
  record exists and another record of its network holds the new hostname. The status of
  the record that holds the hostname is not read: a record with the status \<open>available\<close>
  gives the conflict as well.
\<close>

theorem hostname_conflict:
  "(allocation_error (AllocateIP d networkID requestedIP hostname) = Some HostnameInUse)
     = hostname_held d networkID hostname
   \<and> (fst (UpdateIPHostname d i hostname) = Some HostnameInUse)
     = hostname_held_by_other d i hostname"
proof -
  have "(allocation_error (AllocateIP d networkID requestedIP hostname) = Some HostnameInUse)
     = hostname_held d networkID hostname"
  proof (cases "hostname_held d networkID hostname")
    case True
    then show ?thesis
      by (simp add: AllocateIP_held allocation_error_def)
  next
    case False
    then show ?thesis using AllocateIP_not_held_error [OF False] by simp
  qed
  then show ?thesis by (simp add: UpdateIPHostname_conflict)
qed

theorem hostname_conflict_witness:
  "allocation_error (AllocateIP db30_two 1 None ''h2'') = Some HostnameInUse
   \<and> hostname_held db30_two 1 ''h2''
   \<and> fst (UpdateIPHostname db30_two 1 ''h2'') = Some HostnameInUse
   \<and> hostname_held_by_other db30_two 1 ''h2''"
proof -
  have "hostname_held db30_two 1 ''h2''" and "hostname_held_by_other db30_two 1 ''h2''"
    by code_simp+
  with hostname_conflict [of db30_two 1 None "''h2''" 1] show ?thesis by simp
qed

text \<open>
  C2 as stated fails: a record is allocated with the hostname \<open>h1\<close>, released, and given
  the hostname \<open>h1\<close> again; its status is \<open>available\<close>. An allocation with the hostname
  \<open>h1\<close> then fails with the conflict, and so does the renaming of a second record to
  \<open>h1\<close>, while no allocated record holds \<open>h1\<close>.
\<close>

theorem hostname_conflict_counterexample:
  "AllocateIP db30 1 (Some [10, 0, 0, 2]) ''h1'' = Some (Inr ip2, db30_allocated)
   \<and> ReleaseIP db30_allocated 1 = (None, db30_released)
   \<and> UpdateIPHostname db30_released 1 ''h1'' = (None, db30_renamed)
   \<and> allocation_error (AllocateIP db30_renamed 1 None ''h1'') = Some HostnameInUse
   \<and> \<not> hostname_held_allocated db30_renamed 1 ''h1''
   \<and> AllocateIP db30_renamed 1 None ''h2'' = Some (Inr ip3, db30_two)
   \<and> fst (UpdateIPHostname db30_two 2 ''h1'') = Some HostnameInUse
   \<and> \<not> hostname_held_by_other_allocated db30_two 2 ''h1''"
  by code_simp

subsection \<open>A requested address\<close>




subsection \<open>\<open>CreateNetwork\<close>\<close>

text \<open>
  C4, as amended. \<open>CreateNetwork\<close> does not compare the gateway with the block. When
  PostgreSQL reads the CIDR and the gateway it inserts exactly one network row and returns
  the identifier drawn from the sequence, wherever the gateway lies; otherwise it fails
  with the error of the store and writes no row.
\<close>

theorem CreateNetwork_inserts:
  "(\<forall>c g. cidr_in (CIDR network) = Some c \<and> inet_of_IP (Gateway network) = Some g \<longrightarrow>
      CreateNetwork d network =
        (None, network\<lparr>Network_ID := networks_id_seq d + 1\<rparr>,
         d\<lparr>networks := networks d @
               [\<lparr>n_id = networks_id_seq d + 1, n_cidr = c, n_gateway = g\<rparr>],
           networks_id_seq := networks_id_seq d + 1\<rparr>))
   \<and> (cidr_in (CIDR network) = None \<or> inet_of_IP (Gateway network) = None \<longrightarrow>
      CreateNetwork d network = (Some CreateNetworkFailed, network, d))"
  by (auto simp: CreateNetwork_def insert_network_def Let_def split: option.splits)

theorem CreateNetwork_inserts_witness:
  "CreateNetwork empty_db net30 = (None, net30\<lparr>Network_ID := 1\<rparr>, db30)
   \<and> CreateNetwork db30 (net30\<lparr>CIDR := CidrText [10, 0, 0, 1] 30\<rparr>)
       = (Some CreateNetworkFailed, net30\<lparr>CIDR := CidrText [10, 0, 0, 1] 30\<rparr>, db30)"
proof -
  have c: "cidr_in (CIDR net30) = Some (Inet [10, 0, 0, 0] 30)"
    and g: "inet_of_IP (Gateway net30) = Some (Inet [10, 0, 0, 1] 32)"
    and n: "cidr_in (CIDR (net30\<lparr>CIDR := CidrText [10, 0, 0, 1] 30\<rparr>)) = None"
    by code_simp+
  have d: "empty_db\<lparr>networks := networks empty_db @
               [\<lparr>n_id = 1, n_cidr = Inet [10, 0, 0, 0] 30,
                 n_gateway = Inet [10, 0, 0, 1] 32\<rparr>],
             networks_id_seq := 1\<rparr> = db30"
    and i: "networks_id_seq empty_db + 1 = 1"
    by code_simp+
  from CreateNetwork_inserts [of net30 empty_db]
       CreateNetwork_inserts [of "net30\<lparr>CIDR := CidrText [10, 0, 0, 1] 30\<rparr>" db30]
       c g n
  show ?thesis by (simp add: d i)
qed

text \<open>
  C4 as stated fails: the network 10.0.0.0/30 is created with the gateway 192.168.1.1,
  which is outside the block.
\<close>

theorem CreateNetwork_inserts_counterexample:
  "CreateNetwork empty_db (net30\<lparr>Gateway := [192, 168, 1, 1]\<rparr>)
     = (None, net30\<lparr>Gateway := [192, 168, 1, 1], Network_ID := 1\<rparr>,
        db30\<lparr>networks := [\<lparr>n_id = 1, n_cidr = Inet [10, 0, 0, 0] 30,
                             n_gateway = Inet [192, 168, 1, 1] 32\<rparr>]\<rparr>)
   \<and> ParseCIDR (Inet [10, 0, 0, 0] 30) = Some block30
   \<and> \<not> Contains block30 [192, 168, 1, 1]"
  by code_simp

subsection \<open>\<open>GetIP\<close> after \<open>ReleaseIP\<close>\<close>

lemma select_ip_release:
  "select_ip (snd (update_release d i)) i
     = map (\<lambda>r. r\<lparr>a_status := ''available'', a_hostname := None\<rparr>) (select_ip d i)"
  by (simp add: select_ip_def update_release_def filter_map comp_def)

lemma select_ip_update_hostname:
  "select_ip (snd (update_hostname d h i)) i
     = map (\<lambda>r. r\<lparr>a_hostname := Some h\<rparr>) (select_ip d i)"
  by (simp add: select_ip_def update_hostname_def filter_map comp_def)

lemma ReleaseIP_ok:
  assumes "ReleaseIP d i = (None, d')"
  shows "\<exists>r rs. select_ip d' i = r # rs \<and> a_hostname r = None \<and> a_status r = ''available''"
proof -
  from assms have d': "d' = snd (update_release d i)" and n: "select_ip d i \<noteq> []"
    by (auto simp: ReleaseIP_def update_release_def select_ip_def split: if_splits)
  from n obtain r rs where "select_ip d i = r # rs" by (cases "select_ip d i") auto
  then show ?thesis unfolding d' select_ip_release by simp
qed

lemma UpdateIPHostname_ok:
  assumes "UpdateIPHostname d i h = (None, d')"
  shows "\<exists>r rs. select_ip d i = r # rs
           \<and> select_ip d' i = r\<lparr>a_hostname := Some h\<rparr> # map (\<lambda>r. r\<lparr>a_hostname := Some h\<rparr>) rs"
proof -
  from assms have d': "d' = snd (update_hostname d h i)" and n: "select_ip d i \<noteq> []"
    by (auto simp: UpdateIPHostname_def QueryRow_def update_hostname_def
                   select_ip_def
             split: if_splits sum.splits list.splits)
  from n obtain r rs where "select_ip d i = r # rs" by (cases "select_ip d i") auto
  then show ?thesis unfolding d' select_ip_update_hostname by simp
qed

lemma GetIP_null:
  "select_ip d i = r # rs \<Longrightarrow> a_hostname r = None \<Longrightarrow> GetIP d i = Inl GetIPFailed"
  by (simp add: GetIP_def QueryRow_def scan_ip_def)

lemma GetIP_some:
  "select_ip d i = r # rs \<Longrightarrow> a_hostname r = Some h \<Longrightarrow>
   GetIP d i = Inr (Some \<lparr>ID = a_id r, NetworkID = a_network_id r,
                          Address = IP_of_inet (a_address r), Hostname = h,
                          Status = a_status r\<rparr>)"
  by (simp add: GetIP_def QueryRow_def scan_ip_def)

text \<open>
  C10. \<open>GetIP\<close> returns an error for an identifier whose record has a NULL hostname, and
  a record it returns has a hostname in the store. \<open>ReleaseIP\<close> leaves the record with a
  NULL hostname, so \<open>GetIP\<close> of a released identifier is an error, until
  \<open>UpdateIPHostname\<close> has set a hostname: then \<open>GetIP\<close> returns the record, with the status
  \<open>available\<close>.
\<close>

theorem GetIP_released:
  "(\<forall>r rs. select_ip d i = r # rs \<and> a_hostname r = None \<longrightarrow> GetIP d i = Inl GetIPFailed)
   \<and> (\<forall>ipAddress. GetIP d i = Inr (Some ipAddress) \<longrightarrow>
         (\<exists>r rs. select_ip d i = r # rs \<and> a_hostname r = Some (Hostname ipAddress)))
   \<and> (\<forall>d'. ReleaseIP d i = (None, d') \<longrightarrow> GetIP d' i = Inl GetIPFailed)
   \<and> (\<forall>d' d'' hostname.
         ReleaseIP d i = (None, d') \<and> UpdateIPHostname d' i hostname = (None, d'') \<longrightarrow>
         (\<exists>ipAddress. GetIP d'' i = Inr (Some ipAddress) \<and> Hostname ipAddress = hostname
                       \<and> Status ipAddress = ''available''))"
proof (intro conjI allI impI)
  fix r rs assume "select_ip d i = r # rs \<and> a_hostname r = None"
  then show "GetIP d i = Inl GetIPFailed" by (simp add: GetIP_null)
next
  fix ipAddress assume "GetIP d i = Inr (Some ipAddress)"
  then show "\<exists>r rs. select_ip d i = r # rs \<and> a_hostname r = Some (Hostname ipAddress)"
    by (auto simp: GetIP_def QueryRow_def scan_ip_def
             split: list.splits option.splits if_splits sum.splits)
next
  fix d' assume "ReleaseIP d i = (None, d')"
  from ReleaseIP_ok [OF this] show "GetIP d' i = Inl GetIPFailed"
    by (auto simp: GetIP_null)
next
  fix d' d'' hostname
  assume a: "ReleaseIP d i = (None, d') \<and> UpdateIPHostname d' i hostname = (None, d'')"
  from ReleaseIP_ok [of d i d'] a obtain r rs where
    r: "select_ip d' i = r # rs" "a_status r = ''available''" by blast
  from UpdateIPHostname_ok [of d' i hostname d''] a r obtain rs' where
    "select_ip d'' i = r\<lparr>a_hostname := Some hostname\<rparr> # rs'" by auto
  from GetIP_some [OF this, of hostname] r(2)
  show "\<exists>ipAddress. GetIP d'' i = Inr (Some ipAddress) \<and> Hostname ipAddress = hostname
                       \<and> Status ipAddress = ''available''"
    by simp
qed

theorem GetIP_released_witness:
  "ReleaseIP db30_allocated 1 = (None, db30_released)
   \<and> select_ip db30_released 1 = [row2 None ''available'']
   \<and> GetIP db30_released 1 = Inl GetIPFailed
   \<and> UpdateIPHostname db30_released 1 ''h1'' = (None, db30_renamed)
   \<and> GetIP db30_renamed 1 = Inr (Some (ip2\<lparr>Status := ''available''\<rparr>))
   \<and> select_ip db30_renamed 1 = [row2 (Some ''h1'') ''available'']"
proof -
  have r: "ReleaseIP db30_allocated 1 = (None, db30_released)"
    and u: "UpdateIPHostname db30_released 1 ''h1'' = (None, db30_renamed)"
    and s: "select_ip db30_released 1 = [row2 None ''available'']"
    and n: "a_hostname (row2 None ''available'') = None"
    and g: "GetIP db30_renamed 1 = Inr (Some (ip2\<lparr>Status := ''available''\<rparr>))"
    and s': "select_ip db30_renamed 1 = [row2 (Some ''h1'') ''available'']"
    by code_simp+
  from GetIP_released [of db30_allocated 1] GetIP_released [of db30_released 1]
       GetIP_released [of db30_renamed 1] r u s n g s'
  show ?thesis by auto
qed

text \<open>
  C7. The round trip at 10.0.0.2 in the network 10.0.0.0/30: the allocation returns the
  record 1, the release of 1 succeeds, and \<open>GetIP\<close> of 1 is the error of the scan, not
  the record with the status \<open>available\<close>.
\<close>

theorem roundtrip_GetIP_fails:
  "AllocateIP db30 1 (Some [10, 0, 0, 2]) ''h1'' = Some (Inr ip2, db30_allocated)
   \<and> ReleaseIP db30_allocated (ID ip2) = (None, db30_released)
   \<and> GetIP db30_released (ID ip2) = Inl GetIPFailed"
  by code_simp

subsection \<open>First-available allocation\<close>

lemma first_available_gateway:
  "Contains ipNet ip \<Longrightarrow> Equal ip g \<Longrightarrow>
   first_available ipNet g nid h tx err ip = first_available ipNet g nid h tx err (nextIP ip)"
  by (subst first_available.simps) simp

lemma first_available_occupied:
  "Contains ipNet ip \<Longrightarrow> \<not> Equal ip g \<Longrightarrow> occupied tx nid ip \<Longrightarrow>
   first_available ipNet g nid h tx err ip
     = first_available ipNet g nid h tx (Some ErrNoRows) (nextIP ip)"
  by (subst first_available.simps)
     (auto simp: insert_ip_if_absent_def occupied_def split: option.splits)

lemma first_available_free:
  "Contains ipNet ip \<Longrightarrow> \<not> Equal ip g \<Longrightarrow> inet_of_IP ip = Some a \<Longrightarrow>
   \<not> occupied tx nid ip \<Longrightarrow>
   first_available ipNet g nid h tx err ip
     = Some (LoopEnd None (Some (ip_addresses_id_seq tx + 1, a))
               (tx\<lparr>ip_addresses := ip_addresses tx @
                     [\<lparr>a_id = ip_addresses_id_seq tx + 1, a_network_id = nid, a_address = a,
                       a_hostname = Some h, a_status = ''allocated''\<rparr>],
                   ip_addresses_id_seq := ip_addresses_id_seq tx + 1\<rparr>))"
  by (subst first_available.simps)
     (simp add: insert_ip_if_absent_def occupied_def insert_ip_def Let_def)

lemma first_available_outside:
  "\<not> Contains ipNet ip \<Longrightarrow>
   first_available ipNet g nid h tx err ip = Some (LoopEnd err None tx)"
  by (subst first_available.simps) simp

text \<open>
  C6. In a network with the CIDR 10.0.0.0/30 and the gateway 10.0.0.1 that has no address
  record, whatever else the store holds, three first-available allocations with three
  different hostnames return 10.0.0.2, then 10.0.0.3, then the error of the exhausted
  pool, which leaves the store as it was.
\<close>

theorem three_allocations:
  assumes net: "QueryRow scan_network (select_network d networkID)
                  = Inr (Inet [10, 0, 0, 0] 30, Inet [10, 0, 0, 1] 32)"
    and empty: "filter (\<lambda>r. a_network_id r = networkID) (ip_addresses d) = []"
    and h: "h2 \<noteq> h1" "h3 \<noteq> h1" "h3 \<noteq> h2"
  shows "\<exists>first d1 second d2.
           AllocateIP d networkID None h1 = Some (Inr first, d1)
         \<and> To4 (Address first) = Some [10, 0, 0, 2]
         \<and> AllocateIP d1 networkID None h2 = Some (Inr second, d2)
         \<and> To4 (Address second) = Some [10, 0, 0, 3]
         \<and> AllocateIP d2 networkID None h3 = Some (Inl NoAvailable, d2)"
proof -
  let ?g = "v4InV6Prefix @ [10, 0, 0, 1]"
  define r1 where "r1 = \<lparr>a_id = ip_addresses_id_seq d + 1, a_network_id = networkID,
      a_address = Inet [10, 0, 0, 2] 32, a_hostname = Some h1, a_status = ''allocated''\<rparr>"
  define r2 where "r2 = \<lparr>a_id = ip_addresses_id_seq d + 1 + 1, a_network_id = networkID,
      a_address = Inet [10, 0, 0, 3] 32, a_hostname = Some h2, a_status = ''allocated''\<rparr>"
  define d1 where "d1 = d\<lparr>ip_addresses := ip_addresses d @ [r1],
                           ip_addresses_id_seq := ip_addresses_id_seq d + 1\<rparr>"
  define d2 where "d2 = d1\<lparr>ip_addresses := ip_addresses d1 @ [r2],
                            ip_addresses_id_seq := ip_addresses_id_seq d1 + 1\<rparr>"
  have nx: "nextIP [10, 0, 0, 0] = [10, 0, 0, 1]" "nextIP [10, 0, 0, 1] = [10, 0, 0, 2]"
    "nextIP [10, 0, 0, 2] = [10, 0, 0, 3]" "nextIP [10, 0, 0, 3] = [10, 0, 0, 4]"
    by code_simp+
  have co: "Contains block30 [10, 0, 0, 1]" "Contains block30 [10, 0, 0, 2]"
    "Contains block30 [10, 0, 0, 3]" "\<not> Contains block30 [10, 0, 0, 4]"
    by code_simp+
  have eq: "Equal [10, 0, 0, 1] ?g" "\<not> Equal [10, 0, 0, 2] ?g" "\<not> Equal [10, 0, 0, 3] ?g"
    by code_simp+
  have io: "inet_of_IP [10, 0, 0, 2] = Some (Inet [10, 0, 0, 2] 32)"
    "inet_of_IP [10, 0, 0, 3] = Some (Inet [10, 0, 0, 3] 32)"
    by code_simp+
  have t4: "To4 (IP_of_inet (Inet [10, 0, 0, 2] 32)) = Some [10, 0, 0, 2]"
    "To4 (IP_of_inet (Inet [10, 0, 0, 3] 32)) = Some [10, 0, 0, 3]"
    by code_simp+
  have pg: "ParseIP_gateway (Inet [10, 0, 0, 1] 32) = Some ?g"
    and pc: "ParseCIDR (Inet [10, 0, 0, 0] 30) = Some block30"
    by code_simp+
  have none: "\<And>r. r \<in> set (ip_addresses d) \<Longrightarrow> a_network_id r \<noteq> networkID"
    using empty by (auto simp: filter_empty_conv)
  have sel: "select_network d1 networkID = select_network d networkID"
    "select_network d2 networkID = select_network d networkID"
    by (simp_all add: select_network_def d1_def d2_def)
  have g: "network_gateway d networkID = Some ?g" "network_gateway d1 networkID = Some ?g"
    "network_gateway d2 networkID = Some ?g"
    unfolding network_gateway_def sel net by (simp_all add: pg)
  have b: "network_block d networkID = Some block30" "network_block d1 networkID = Some block30"
    "network_block d2 networkID = Some block30"
    unfolding network_block_def sel net by (simp_all add: pc)
  have nh: "\<not> hostname_held d networkID h1" "\<not> hostname_held d1 networkID h2"
    "\<not> hostname_held d2 networkID h3"
    using none h by (auto simp: hostname_held_def list_ex_iff d1_def d2_def r1_def r2_def)
  have oc: "\<not> occupied d networkID [10, 0, 0, 2]"
    "occupied d1 networkID [10, 0, 0, 2]" "\<not> occupied d1 networkID [10, 0, 0, 3]"
    "occupied d2 networkID [10, 0, 0, 2]" "occupied d2 networkID [10, 0, 0, 3]"
    using none by (auto simp: occupied_def io list_ex_iff d1_def d2_def r1_def r2_def)
  have base: "net_IP block30 = [10, 0, 0, 0]" by (simp add: block30_def)
  have l1: "first_available block30 ?g networkID h1 d None (nextIP (net_IP block30))
      = Some (LoopEnd None (Some (ip_addresses_id_seq d + 1, Inet [10, 0, 0, 2] 32)) d1)"
    unfolding base nx(1)
    by (simp add: first_available_gateway co eq nx first_available_free [OF _ _ io(1)] oc
                  d1_def r1_def)
  have l2: "first_available block30 ?g networkID h2 d1 None (nextIP (net_IP block30))
      = Some (LoopEnd None (Some (ip_addresses_id_seq d1 + 1, Inet [10, 0, 0, 3] 32)) d2)"
    unfolding base nx(1)
    by (simp add: first_available_gateway first_available_occupied co eq nx
                  first_available_free [OF _ _ io(2)] oc d2_def r2_def)
       (simp add: d1_def)
  have l3: "first_available block30 ?g networkID h3 d2 None (nextIP (net_IP block30))
      = Some (LoopEnd (Some ErrNoRows) None d2)"
    unfolding base nx(1)
    by (simp add: first_available_gateway first_available_occupied first_available_outside
                  co eq nx oc)
  have a1: "AllocateIP d networkID None h1
      = Some (Inr \<lparr>ID = ip_addresses_id_seq d + 1, NetworkID = networkID,
                   Address = IP_of_inet (Inet [10, 0, 0, 2] 32), Hostname = h1,
                   Status = ''allocated''\<rparr>, d1)"
    unfolding AllocateIP_first [OF nh(1) g(1) b(1)] l1 by (simp add: AllocateIP_finish_def)
  have a2: "AllocateIP d1 networkID None h2
      = Some (Inr \<lparr>ID = ip_addresses_id_seq d1 + 1, NetworkID = networkID,
                   Address = IP_of_inet (Inet [10, 0, 0, 3] 32), Hostname = h2,
                   Status = ''allocated''\<rparr>, d2)"
    unfolding AllocateIP_first [OF nh(2) g(2) b(2)] l2 by (simp add: AllocateIP_finish_def)
  have a3: "AllocateIP d2 networkID None h3 = Some (Inl NoAvailable, d2)"
    unfolding AllocateIP_first [OF nh(3) g(3) b(3)] l3 by simp
  from a1 a2 a3 t4 show ?thesis by simp
qed

theorem three_allocations_witness:
  "AllocateIP db30 1 None ''h1'' = Some (Inr ip2, db30_allocated)
   \<and> (\<exists>second d2. AllocateIP db30_allocated 1 None ''h2'' = Some (Inr second, d2)
        \<and> To4 (Address second) = Some [10, 0, 0, 3]
        \<and> AllocateIP d2 1 None ''h3'' = Some (Inl NoAvailable, d2))"
proof -
  have net: "QueryRow scan_network (select_network db30 1)
               = Inr (Inet [10, 0, 0, 0] 30, Inet [10, 0, 0, 1] 32)"
    and empty: "filter (\<lambda>r. a_network_id r = 1) (ip_addresses db30) = []"
    and h: "''h2'' \<noteq> ''h1''" "''h3'' \<noteq> ''h1''" "''h3'' \<noteq> ''h2''"
    and a: "AllocateIP db30 1 None ''h1'' = Some (Inr ip2, db30_allocated)"
    by code_simp+
  from three_allocations [OF net empty h] a show ?thesis by auto
qed

lemma candidate_length [simp]: "length (candidate ipNet j) = length (net_IP ipNet)"
  by (induction j) (simp_all add: candidate_def)

lemma candidate_val:
  "be_val (candidate ipNet j)
     = (be_val (net_IP ipNet) + j) mod 256 ^ length (net_IP ipNet)"
proof (induction j)
  case 0
  show ?case using be_val_bound [of "net_IP ipNet"] by (simp add: candidate_def)
next
  case (Suc j)
  have "candidate ipNet (Suc j) = nextIP (candidate ipNet j)"
    by (simp add: candidate_def)
  then have "be_val (candidate ipNet (Suc j))
      = (be_val (candidate ipNet j) + 1) mod 256 ^ length (net_IP ipNet)"
    by (simp add: nextIP_val)
  also have "\<dots> = ((be_val (net_IP ipNet) + j) mod 256 ^ length (net_IP ipNet) + 1)
                    mod 256 ^ length (net_IP ipNet)"
    by (simp only: Suc.IH)
  also have "\<dots> = (be_val (net_IP ipNet) + Suc j) mod 256 ^ length (net_IP ipNet)"
    by (simp add: mod_Suc_eq)
  finally show ?case .
qed

lemma be_val_inj:
  "length xs = length ys \<Longrightarrow> be_val xs = be_val ys \<Longrightarrow> xs = ys"
proof (induction xs ys rule: list_induct2)
  case Nil
  show ?case by simp
next
  case (Cons x xs y ys)
  let ?P = "(256::nat) ^ length ys"
  from Cons.hyps have l: "length xs = length ys" .
  have vx: "be_val xs < ?P" using be_val_bound [of xs] l by simp
  have vy: "be_val ys < ?P" using be_val_bound [of ys] by simp
  from Cons.prems have e: "unat x * ?P + be_val xs = unat y * ?P + be_val ys"
    using l by simp
  have "(unat x * ?P + be_val xs) div ?P = unat x" using vx by simp
  moreover have "(unat y * ?P + be_val ys) div ?P = unat y" using vy by simp
  ultimately have u: "unat x = unat y" using e by simp
  then have "x = y" by (simp add: word_unat_eq_iff)
  moreover have "be_val xs = be_val ys" using e u by simp
  ultimately show ?case using Cons.IH by simp
qed

lemma candidate_between:
  assumes l: "length ip = length (net_IP ipNet)"
    and lo: "be_val (net_IP ipNet) < be_val ip"
    and hi: "be_val ip < be_val (candidate ipNet k)"
  shows "\<exists>j. 0 < j \<and> j < k \<and> candidate ipNet j = ip"
proof -
  let ?b = "be_val (net_IP ipNet)" and ?M = "(256::nat) ^ length (net_IP ipNet)"
  define j where "j = be_val ip - ?b"
  have m: "be_val ip < ?M" using be_val_bound [of ip] l by simp
  have j0: "0 < j" using lo by (simp add: j_def)
  have bj: "?b + j = be_val ip" using lo by (simp add: j_def)
  have "be_val (candidate ipNet j) = be_val ip"
    unfolding candidate_val bj using m by simp
  then have c: "candidate ipNet j = ip" using l by (intro be_val_inj) simp_all
  have "j < k"
  proof (rule ccontr)
    assume "\<not> j < k"
    then have "?b + k \<le> be_val ip" using bj by simp
    then have "?b + k < ?M" using m by simp
    then have "be_val (candidate ipNet k) = ?b + k" by (simp add: candidate_val)
    with \<open>?b + k \<le> be_val ip\<close> hi show False by simp
  qed
  with j0 c show ?thesis by blast
qed

text \<open>
  C8, as amended. The candidates are the successors of the base address, in the order of
  \<open>nextIP\<close>: candidate \<open>j\<close> has the numeric value of the base address plus \<open>j\<close>, modulo
  \<open>256\<close> to the number of its bytes. The base address itself, candidate 0, is never tried.
  A successful first-available allocation returns candidate \<open>k\<close>, for some \<open>k\<close> above 0,
  which is in the block, not the gateway and not occupied, and every candidate before it
  is in the block and is the gateway or occupied. So is every address of that length whose
  value lies strictly between the base address and the one returned. An allocation that
  fails for an exhausted pool has gone through the candidates up to the first one outside
  the block, and each of them is the gateway or occupied.
\<close>

theorem first_available_order:
  "(\<forall>ipAddress d'. AllocateIP d networkID None hostname = Some (Inr ipAddress, d') \<longrightarrow>
      (\<exists>gatewayIP ipNet k a.
           network_gateway d networkID = Some gatewayIP
         \<and> network_block d networkID = Some ipNet
         \<and> 0 < k
         \<and> (\<forall>j. 0 < j \<and> j < k \<longrightarrow> passed_over ipNet gatewayIP d networkID (candidate ipNet j))
         \<and> taken ipNet gatewayIP d networkID (candidate ipNet k)
         \<and> inet_of_IP (candidate ipNet k) = Some a \<and> Address ipAddress = IP_of_inet a
         \<and> (\<forall>j. length (candidate ipNet j) = length (net_IP ipNet)
                \<and> be_val (candidate ipNet j)
                    = (be_val (net_IP ipNet) + j) mod 256 ^ length (net_IP ipNet))
         \<and> (\<forall>ip. length ip = length (net_IP ipNet)
                  \<and> be_val (net_IP ipNet) < be_val ip
                  \<and> be_val ip < be_val (candidate ipNet k)
                \<longrightarrow> passed_over ipNet gatewayIP d networkID ip)))
   \<and> (\<forall>d'. AllocateIP d networkID None hostname = Some (Inl NoAvailable, d') \<longrightarrow>
      (\<exists>gatewayIP ipNet k.
           network_gateway d networkID = Some gatewayIP
         \<and> network_block d networkID = Some ipNet
         \<and> 0 < k
         \<and> (\<forall>j. 0 < j \<and> j < k \<longrightarrow> passed_over ipNet gatewayIP d networkID (candidate ipNet j))
         \<and> \<not> Contains ipNet (candidate ipNet k)))"
proof (intro conjI allI impI)
  fix ipAddress d'
  assume s: "AllocateIP d networkID None hostname = Some (Inr ipAddress, d')"
  from AllocateIP_first_success [OF s] obtain g ipNet k a where
    g: "network_gateway d networkID = Some g" and b: "network_block d networkID = Some ipNet"
    and p: "\<forall>j<k. passed_over ipNet g d networkID (candidate ipNet (Suc j))"
    and t: "taken ipNet g d networkID (candidate ipNet (Suc k))"
    and a: "inet_of_IP (candidate ipNet (Suc k)) = Some a"
    and addr: "Address ipAddress = IP_of_inet a"
    by blast
  have p': "passed_over ipNet g d networkID (candidate ipNet j)" if "0 < j" "j < Suc k" for j
  proof -
    from that obtain j' where "j = Suc j'" "j' < k" by (cases j) auto
    with p show ?thesis by simp
  qed
  have "passed_over ipNet g d networkID ip"
    if "length ip = length (net_IP ipNet) \<and> be_val (net_IP ipNet) < be_val ip
        \<and> be_val ip < be_val (candidate ipNet (Suc k))" for ip
  proof -
    from candidate_between [of ip ipNet "Suc k"] that obtain j where
      "0 < j" "j < Suc k" "candidate ipNet j = ip" by blast
    with p' show ?thesis by blast
  qed
  with g b p' t a addr candidate_val [of ipNet]
  show "\<exists>gatewayIP ipNet k a.
           network_gateway d networkID = Some gatewayIP
         \<and> network_block d networkID = Some ipNet
         \<and> 0 < k
         \<and> (\<forall>j. 0 < j \<and> j < k \<longrightarrow> passed_over ipNet gatewayIP d networkID (candidate ipNet j))
         \<and> taken ipNet gatewayIP d networkID (candidate ipNet k)
         \<and> inet_of_IP (candidate ipNet k) = Some a \<and> Address ipAddress = IP_of_inet a
         \<and> (\<forall>j. length (candidate ipNet j) = length (net_IP ipNet)
                \<and> be_val (candidate ipNet j)
                    = (be_val (net_IP ipNet) + j) mod 256 ^ length (net_IP ipNet))
         \<and> (\<forall>ip. length ip = length (net_IP ipNet)
                  \<and> be_val (net_IP ipNet) < be_val ip
                  \<and> be_val ip < be_val (candidate ipNet k)
                \<longrightarrow> passed_over ipNet gatewayIP d networkID ip)"
    by (intro exI [of _ g] exI [of _ ipNet] exI [of _ "Suc k"] exI [of _ a]) simp
next
  fix d'
  assume e: "AllocateIP d networkID None hostname = Some (Inl NoAvailable, d')"
  from AllocateIP_first_exhausted [OF e] obtain g ipNet k where
    g: "network_gateway d networkID = Some g" and b: "network_block d networkID = Some ipNet"
    and p: "\<forall>j<k. passed_over ipNet g d networkID (candidate ipNet (Suc j))"
    and t: "\<not> Contains ipNet (candidate ipNet (Suc k))"
    by blast
  have "passed_over ipNet g d networkID (candidate ipNet j)" if "0 < j" "j < Suc k" for j
  proof -
    from that obtain j' where "j = Suc j'" "j' < k" by (cases j) auto
    with p show ?thesis by simp
  qed
  with g b t
  show "\<exists>gatewayIP ipNet k.
           network_gateway d networkID = Some gatewayIP
         \<and> network_block d networkID = Some ipNet
         \<and> 0 < k
         \<and> (\<forall>j. 0 < j \<and> j < k \<longrightarrow> passed_over ipNet gatewayIP d networkID (candidate ipNet j))
         \<and> \<not> Contains ipNet (candidate ipNet k)"
    by (intro exI [of _ g] exI [of _ ipNet] exI [of _ "Suc k"]) simp
qed

theorem first_available_order_witness:
  "AllocateIP db30 1 None ''h1'' = Some (Inr ip2, db30_allocated)
   \<and> network_gateway db30 1 = Some (v4InV6Prefix @ [10, 0, 0, 1])
   \<and> network_block db30 1 = Some block30
   \<and> candidate block30 1 = [10, 0, 0, 1]
   \<and> passed_over block30 (v4InV6Prefix @ [10, 0, 0, 1]) db30 1 [10, 0, 0, 1]
   \<and> candidate block30 2 = [10, 0, 0, 2]
   \<and> taken block30 (v4InV6Prefix @ [10, 0, 0, 1]) db30 1 [10, 0, 0, 2]
   \<and> Address ip2 = IP_of_inet (Inet [10, 0, 0, 2] 32)
   \<and> be_val [10, 0, 0, 2] = be_val [10, 0, 0, 0] + 2
   \<and> AllocateIP db30_two 1 None ''h3'' = Some (Inl NoAvailable, db30_two)
   \<and> passed_over block30 (v4InV6Prefix @ [10, 0, 0, 1]) db30_two 1 [10, 0, 0, 2]
   \<and> candidate block30 3 = [10, 0, 0, 3]
   \<and> passed_over block30 (v4InV6Prefix @ [10, 0, 0, 1]) db30_two 1 [10, 0, 0, 3]
   \<and> candidate block30 4 = [10, 0, 0, 4]
   \<and> \<not> Contains block30 [10, 0, 0, 4]"
proof -
  have a: "AllocateIP db30 1 None ''h1'' = Some (Inr ip2, db30_allocated)"
    and x: "AllocateIP db30_two 1 None ''h3'' = Some (Inl NoAvailable, db30_two)"
    by code_simp+
  have g: "network_gateway db30 1 = Some (v4InV6Prefix @ [10, 0, 0, 1])"
    and b: "network_block db30 1 = Some block30"
    and c: "candidate block30 1 = [10, 0, 0, 1]" "candidate block30 2 = [10, 0, 0, 2]"
      "candidate block30 3 = [10, 0, 0, 3]" "candidate block30 4 = [10, 0, 0, 4]"
    and p: "passed_over block30 (v4InV6Prefix @ [10, 0, 0, 1]) db30 1 [10, 0, 0, 1]"
      "passed_over block30 (v4InV6Prefix @ [10, 0, 0, 1]) db30_two 1 [10, 0, 0, 2]"
      "passed_over block30 (v4InV6Prefix @ [10, 0, 0, 1]) db30_two 1 [10, 0, 0, 3]"
    and t: "taken block30 (v4InV6Prefix @ [10, 0, 0, 1]) db30 1 [10, 0, 0, 2]"
    and i: "Address ip2 = IP_of_inet (Inet [10, 0, 0, 2] 32)"
    and n: "\<not> Contains block30 [10, 0, 0, 4]"
    by code_simp+
  have v: "be_val [10, 0, 0, 2] = be_val [10, 0, 0, 0] + 2"
    by simp
  from first_available_order [of db30 1 "''h1''"] first_available_order [of db30_two 1 "''h3''"]
       a x g b c p t i n v
  show ?thesis by blast
qed

text \<open>
  C8 as stated fails: in the empty network 10.0.0.0/30 the base address 10.0.0.0 is in
  the block, is not the gateway and is not occupied, and the allocation returns 10.0.0.2.
\<close>

theorem first_available_order_counterexample:
  "allocated_address (AllocateIP db30 1 None ''h1'') = Some (v4InV6Prefix @ [10, 0, 0, 2])
   \<and> network_block db30 1 = Some block30
   \<and> network_gateway db30 1 = Some (v4InV6Prefix @ [10, 0, 0, 1])
   \<and> net_IP block30 = [10, 0, 0, 0]
   \<and> taken block30 (v4InV6Prefix @ [10, 0, 0, 1]) db30 1 [10, 0, 0, 0]
   \<and> be_val [10, 0, 0, 0] < be_val [10, 0, 0, 2]"
proof -
  have "allocated_address (AllocateIP db30 1 None ''h1'') = Some (v4InV6Prefix @ [10, 0, 0, 2])"
    and "network_block db30 1 = Some block30"
    and "network_gateway db30 1 = Some (v4InV6Prefix @ [10, 0, 0, 1])"
    and "net_IP block30 = [10, 0, 0, 0]"
    and "taken block30 (v4InV6Prefix @ [10, 0, 0, 1]) db30 1 [10, 0, 0, 0]"
    by code_simp+
  moreover have "be_val [10, 0, 0, 0] < be_val [10, 0, 0, 2]"
    by simp
  ultimately show ?thesis by blast
qed

end
